theory Spec2Isabelle
  imports Complex_Main "HOL-Library.Multiset"
begin

section \<open>Numbers and strings\<close>

text \<open>
  A TypeScript \<open>number\<close> is modelled as a \<^typ>\<open>real\<close>: every arithmetic step of the
  source is taken exactly, without the rounding of IEEE doubles. Counters that only ever
  hold non-negative integers (page indices, ranks) are \<^typ>\<open>nat\<close>.
\<close>

text \<open>Decimal rendering of an integer inside a template string.\<close>

definition digit_char :: "nat \<Rightarrow> char" where
  "digit_char d = ''0123456789'' ! d"

function show_nat :: "nat \<Rightarrow> string" where
  "show_nat n = (if n < 10 then [digit_char n] else show_nat (n div 10) @ [digit_char (n mod 10)])"
  by pat_completeness auto
termination
  by (relation "measure id") auto

definition show_int :: "int \<Rightarrow> string" where
  "show_int i = (if i < 0 then CHR ''-'' # show_nat (nat (- i)) else show_nat (nat i))"

text \<open>\<open>Math.round\<close>: the nearest integer, a tie going up.\<close>

definition Math_round :: "real \<Rightarrow> int" where
  "Math_round x = \<lfloor>x + 1 / 2\<rfloor>"

text \<open>A block of statements run in order on a state.\<close>

primrec run :: "('s \<Rightarrow> 's) list \<Rightarrow> 's \<Rightarrow> 's" where
  "run [] s = s"
| "run (f # fs) s = run fs (f s)"

section \<open>The drawing backend\<close>

text \<open>
  Modelled from the spec: the drawing backend (the third-party library behind
  \<open>this.doc\<close>) is not part of the repository. Following the backend interface of the
  spec (set font, size and colours; draw text, line and rectangle; wrap text to a width;
  append a page, switch the current page, count the pages) it is a recorder: every page
  holds the list of shapes painted on it so far, each with the graphics state it was
  painted in. The text-wrapping measurement is a parameter (the field \<open>wrap\<close>); it sees
  the graphics state because the backend wraps with the font that is current.
\<close>

record gstate =
  font_name :: string
  font_style :: string
  font_size :: real
  text_color :: "int \<times> int \<times> int"
  fill_color :: "int \<times> int \<times> int"
  draw_color :: "int \<times> int \<times> int"

datatype shape =
    Text "string list" real real "string option" "real option"
  | Line real real real real
  | Rect real real real real "string option"

type_synonym paint = "gstate \<times> shape"

record jsPDF =
  pages :: "paint list list"
  currentPage :: nat
  gs :: gstate
  wrap :: "gstate \<Rightarrow> string \<Rightarrow> real \<Rightarrow> string list"

definition new_jsPDF :: "(gstate \<Rightarrow> string \<Rightarrow> real \<Rightarrow> string list) \<Rightarrow> jsPDF" where
  "new_jsPDF w =
     \<lparr>pages = [[]], currentPage = 1,
      gs = \<lparr>font_name = ''helvetica'', font_style = ''normal'', font_size = 16,
            text_color = (0, 0, 0), fill_color = (0, 0, 0), draw_color = (0, 0, 0)\<rparr>,
      wrap = w\<rparr>"

definition getNumberOfPages :: "jsPDF \<Rightarrow> nat" where
  "getNumberOfPages d = length (pages d)"

definition doc_addPage :: "jsPDF \<Rightarrow> jsPDF" where
  "doc_addPage d = d\<lparr>pages := pages d @ [[]], currentPage := Suc (length (pages d))\<rparr>"

definition setPage :: "nat \<Rightarrow> jsPDF \<Rightarrow> jsPDF" where
  "setPage n d = (if 0 < n \<and> n \<le> length (pages d) then d\<lparr>currentPage := n\<rparr> else d)"

definition setFont :: "string \<Rightarrow> string \<Rightarrow> jsPDF \<Rightarrow> jsPDF" where
  "setFont name style d = d\<lparr>gs := (gs d)\<lparr>font_name := name, font_style := style\<rparr>\<rparr>"

definition setFontSize :: "real \<Rightarrow> jsPDF \<Rightarrow> jsPDF" where
  "setFontSize sz d = d\<lparr>gs := (gs d)\<lparr>font_size := sz\<rparr>\<rparr>"

definition setTextColor :: "int \<times> int \<times> int \<Rightarrow> jsPDF \<Rightarrow> jsPDF" where
  "setTextColor c d = d\<lparr>gs := (gs d)\<lparr>text_color := c\<rparr>\<rparr>"

definition setFillColor :: "int \<times> int \<times> int \<Rightarrow> jsPDF \<Rightarrow> jsPDF" where
  "setFillColor c d = d\<lparr>gs := (gs d)\<lparr>fill_color := c\<rparr>\<rparr>"

definition setDrawColor :: "int \<times> int \<times> int \<Rightarrow> jsPDF \<Rightarrow> jsPDF" where
  "setDrawColor c d = d\<lparr>gs := (gs d)\<lparr>draw_color := c\<rparr>\<rparr>"

definition paint_on :: "shape \<Rightarrow> jsPDF \<Rightarrow> jsPDF" where
  "paint_on s d =
     (if 0 < currentPage d \<and> currentPage d \<le> length (pages d)
      then d\<lparr>pages := (pages d)[currentPage d - 1 :=
                 (pages d ! (currentPage d - 1)) @ [(gs d, s)]]\<rparr>
      else d)"

definition doc_text :: "string list \<Rightarrow> real \<Rightarrow> real \<Rightarrow> string option \<Rightarrow> real option \<Rightarrow> jsPDF \<Rightarrow> jsPDF" where
  "doc_text ls x0 y0 al lhf d = paint_on (Text ls x0 y0 al lhf) d"

definition doc_line :: "real \<Rightarrow> real \<Rightarrow> real \<Rightarrow> real \<Rightarrow> jsPDF \<Rightarrow> jsPDF" where
  "doc_line x1 y1 x2 y2 d = paint_on (Line x1 y1 x2 y2) d"

definition doc_rect :: "real \<Rightarrow> real \<Rightarrow> real \<Rightarrow> real \<Rightarrow> string option \<Rightarrow> jsPDF \<Rightarrow> jsPDF" where
  "doc_rect x0 y0 w h st d = paint_on (Rect x0 y0 w h st) d"

definition splitTextToSize :: "jsPDF \<Rightarrow> string \<Rightarrow> real \<Rightarrow> string list" where
  "splitTextToSize d s w = wrap d (gs d) s w"

section \<open>The page-flow cursor\<close>

definition MARGIN :: real where "MARGIN = 15"
definition FONT_H1 :: real where "FONT_H1 = 20"
definition FONT_H2 :: real where "FONT_H2 = 16"
definition FONT_H3 :: real where "FONT_H3 = 12"
definition FONT_BODY :: real where "FONT_BODY = 10"
definition FONT_SMALL :: real where "FONT_SMALL = 8"
definition LINE_HEIGHT_MULTIPLIER :: real where "LINE_HEIGHT_MULTIPLIER = 3 / 2"
definition FOOTER_HEIGHT :: real where "FOOTER_HEIGHT = 10"

text \<open>
  The class \<open>PdfBuilder\<close>. The record is extensible: the extension stands for whatever
  further state a content procedure of a styled section closes over.
\<close>

record builder =
  doc :: jsPDF
  y :: real
  pageWidth :: real
  pageHeight :: real
  contentWidth :: real
  pageNumber :: nat

definition on_doc :: "(jsPDF \<Rightarrow> jsPDF) \<Rightarrow> 'a builder_scheme \<Rightarrow> 'a builder_scheme" where
  "on_doc f b = b\<lparr>doc := f (doc b)\<rparr>"

definition addPageHeader :: "'a builder_scheme \<Rightarrow> 'a builder_scheme" where
  "addPageHeader b =
     run [on_doc (setFont ''helvetica'' ''normal''),
          on_doc (setFontSize FONT_SMALL),
          on_doc (setTextColor (150, 150, 150)),
          on_doc (doc_text [''HR Screener AI Report''] MARGIN (MARGIN / 2) None None),
          on_doc (doc_line MARGIN (MARGIN / 2 + 2) (pageWidth b - MARGIN) (MARGIN / 2 + 2))] b"

definition addPage :: "'a builder_scheme \<Rightarrow> 'a builder_scheme" where
  "addPage b =
     run [\<lambda>b. if pageNumber b > 0 then on_doc doc_addPage b else b,
          \<lambda>b. b\<lparr>pageNumber := pageNumber b + 1\<rparr>,
          \<lambda>b. b\<lparr>y := MARGIN\<rparr>,
          addPageHeader] b"

text \<open>
  The constructor: a fresh one-page document, whose page size the backend gives, then
  \<open>addPage\<close> on the page counter 0.
\<close>

definition PdfBuilder_new ::
  "real \<Rightarrow> real \<Rightarrow> (gstate \<Rightarrow> string \<Rightarrow> real \<Rightarrow> string list) \<Rightarrow> builder" where
  "PdfBuilder_new pw ph w =
     addPage \<lparr>doc = new_jsPDF w, y = 0, pageWidth = pw, pageHeight = ph,
              contentWidth = pw - MARGIN * 2, pageNumber = 0\<rparr>"

definition checkAndAddPage :: "real \<Rightarrow> 'a builder_scheme \<Rightarrow> 'a builder_scheme" where
  "checkAndAddPage requiredHeight b =
     (if y b + requiredHeight > pageHeight b - MARGIN - FOOTER_HEIGHT then addPage b else b)"

section \<open>The analysis result (types.ts)\<close>

record ParsedResume =
  name :: string
  email :: string
  phone :: string
  skills :: "string list"
  experience_years :: real
  education_level :: string
  work_history_summary :: string
  projects :: "string list"
  certifications :: "string list"
  short_summary :: string

record ParsedJobDescription =
  role :: string
  required_skills :: "string list"
  preferred_skills :: "string list"
  minimum_experience :: real
  education_required :: string
  job_summary :: string

record BiasFlag =
  flag :: string
  category :: string
  severity :: string

record BiasAnalysis =
  bias_flags :: "BiasFlag list"

record FinalRecommendation =
  top_candidate :: string
  reasoning :: string

text \<open>
  The raw scores as \<open>processAnalysis\<close> reads them: it casts them to a \<open>Partial\<close>, so
  every component may be missing (\<open>None\<close>), and the \<open>scores\<close> object itself may be.
\<close>

record UnrankedCandidateScores =
  skill_match_score :: "real option"
  experience_match_score :: "real option"
  education_match_score :: "real option"
  semantic_relevance_score :: "real option"

record UnrankedCandidateResult =
  parsed_resume :: ParsedResume
  scores :: "UnrankedCandidateScores option"
  reasoning :: string
  strengths :: "string list"
  weaknesses :: "string list"
  missing_skills :: "string list"
  fit_assessment :: "string list"

record RawAnalysisResult =
  parsed_job_description :: "ParsedJobDescription option"
  candidate_analysis :: "UnrankedCandidateResult list option"
  bias_analysis :: "BiasAnalysis option"
  final_recommendation :: "FinalRecommendation option"

record CandidateScores =
  skill_match_score :: real
  experience_match_score :: real
  education_match_score :: real
  semantic_relevance_score :: real
  overall_match_score :: real

text \<open>The value of the first \<open>map\<close> of \<open>processAnalysis\<close>: a candidate with all five scores, not yet ranked.\<close>

record ScoredCandidate =
  parsed_resume :: ParsedResume
  scores :: CandidateScores
  reasoning :: string
  strengths :: "string list"
  weaknesses :: "string list"
  missing_skills :: "string list"
  fit_assessment :: "string list"

record CandidateResult = ScoredCandidate +
  rank :: nat

record AnalysisResult =
  parsed_job_description :: ParsedJobDescription
  ranked_candidates :: "CandidateResult list"
  bias_analysis :: BiasAnalysis
  final_recommendation :: FinalRecommendation

section \<open>Block renderers\<close>

definition addHeader :: "string \<Rightarrow> 'a builder_scheme \<Rightarrow> 'a builder_scheme" where
  "addHeader s b =
     run [checkAndAddPage 20,
          on_doc (setFont ''helvetica'' ''bold''),
          on_doc (setFontSize FONT_H1),
          on_doc (setTextColor (30, 64, 175)),
          \<lambda>b. on_doc (doc_text [s] (pageWidth b / 2) (y b) (Some ''center'') None) b,
          \<lambda>b. b\<lparr>y := y b + FONT_H1 * 0.7\<rparr>] b"

definition addSubheader :: "string \<Rightarrow> 'a builder_scheme \<Rightarrow> 'a builder_scheme" where
  "addSubheader s b =
     run [checkAndAddPage 15,
          on_doc (setFont ''helvetica'' ''bold''),
          on_doc (setFontSize FONT_H2),
          on_doc (setTextColor (37, 99, 235)),
          \<lambda>b. on_doc (doc_text [s] MARGIN (y b) None None) b,
          \<lambda>b. b\<lparr>y := y b + FONT_H2 * 0.9\<rparr>] b"

definition addSectionTitle :: "string \<Rightarrow> 'a builder_scheme \<Rightarrow> 'a builder_scheme" where
  "addSectionTitle s b =
     run [checkAndAddPage 10,
          on_doc (setFont ''helvetica'' ''bold''),
          on_doc (setFontSize FONT_H3),
          on_doc (setTextColor (17, 24, 39)),
          \<lambda>b. on_doc (doc_text [s] MARGIN (y b) None None) b,
          \<lambda>b. b\<lparr>y := y b + FONT_H3 * 0.7\<rparr>] b"

text \<open>
  The options of \<open>addBodyText\<close>; a colour is the triple the source reads at the indices
  0, 1 and 2 of the array. The text is a string or absent (\<open>undefined\<close>): every caller
  passes a string, on which \<open>String(text)\<close> is the identity.
\<close>

record BodyTextOptions =
  fontStyle :: "string option"
  color :: "(int \<times> int \<times> int) option"

definition no_options :: BodyTextOptions where
  "no_options = \<lparr>fontStyle = None, color = None\<rparr>"

definition lineHeight :: "nat \<Rightarrow> real" where
  "lineHeight n = real n * (FONT_BODY * 0.352778) * LINE_HEIGHT_MULTIPLIER"

definition addBodyText :: "string option \<Rightarrow> BodyTextOptions \<Rightarrow> 'a builder_scheme \<Rightarrow> 'a builder_scheme" where
  "addBodyText txt options b =
     (case txt of
        None \<Rightarrow> b
      | Some s \<Rightarrow>
          (let fontStyle' = (case fontStyle options of None \<Rightarrow> ''normal'' | Some st \<Rightarrow> st);
               color' = (case color options of None \<Rightarrow> (75, 85, 99) | Some c \<Rightarrow> c);
               textLines = splitTextToSize (doc b) s (contentWidth b);
               textHeight = lineHeight (length textLines)
           in run [checkAndAddPage textHeight,
                   on_doc (setFont ''helvetica'' fontStyle'),
                   on_doc (setFontSize FONT_BODY),
                   on_doc (setTextColor color'),
                   \<lambda>b. on_doc (doc_text textLines MARGIN (y b) None (Some LINE_HEIGHT_MULTIPLIER)) b,
                   \<lambda>b. b\<lparr>y := y b + textHeight\<rparr>] b))"

text \<open>The bullet glyph, byte for byte as the string literal of the source holds it.\<close>

definition BULLET :: string where
  "BULLET = [CHR 0xC3, CHR 0xA2, CHR 0xE2, CHR 0x82, CHR 0xAC, CHR 0xC2, CHR 0xA2]"

definition addBulletItem :: "string \<Rightarrow> 'a builder_scheme \<Rightarrow> 'a builder_scheme" where
  "addBulletItem item b =
     (let textLines = splitTextToSize (doc b) item (contentWidth b - 5);
          textHeight = lineHeight (length textLines)
      in run [checkAndAddPage textHeight,
              on_doc (setFont ''helvetica'' ''normal''),
              on_doc (setFontSize FONT_BODY),
              on_doc (setTextColor (75, 85, 99)),
              \<lambda>b. on_doc (doc_text [BULLET] (MARGIN + 2) (y b) None (Some LINE_HEIGHT_MULTIPLIER)) b,
              \<lambda>b. on_doc (doc_text textLines (MARGIN + 5) (y b) None (Some LINE_HEIGHT_MULTIPLIER)) b,
              \<lambda>b. b\<lparr>y := y b + textHeight\<rparr>] b)"

text \<open>The list is \<open>None\<close> when the caller passes no array at all (\<open>!items\<close>).\<close>

definition addBulletList :: "string list option \<Rightarrow> 'a builder_scheme \<Rightarrow> 'a builder_scheme" where
  "addBulletList items b =
     (case items of
        None \<Rightarrow> addBodyText (Some ''None listed'') \<lparr>fontStyle = Some ''italic'', color = None\<rparr> b
      | Some its \<Rightarrow>
          if length its = 0
          then addBodyText (Some ''None listed'') \<lparr>fontStyle = Some ''italic'', color = None\<rparr> b
          else fold addBulletItem its b)"

definition percent :: "real \<Rightarrow> string" where
  "percent x = show_int (Math_round x) @ ''%''"

definition addScoreItem :: "real \<Rightarrow> nat \<times> string \<times> real \<Rightarrow> 'a builder_scheme \<Rightarrow> 'a builder_scheme" where
  "addScoreItem itemWidth = (\<lambda>(index, label, score) b.
     run [on_doc (setFont ''helvetica'' ''bold''),
          on_doc (setFontSize FONT_H3),
          on_doc (setTextColor (17, 24, 39)),
          \<lambda>b. on_doc (doc_text [percent score]
                  (MARGIN + itemWidth * real index + itemWidth / 2) (y b) (Some ''center'') None) b,
          on_doc (setFont ''helvetica'' ''normal''),
          on_doc (setFontSize FONT_SMALL),
          on_doc (setTextColor (75, 85, 99)),
          \<lambda>b. on_doc (doc_text [label]
                  (MARGIN + itemWidth * real index + itemWidth / 2) (y b + 5) (Some ''center'') None) b] b)"

definition addScoreGrid :: "CandidateScores \<Rightarrow> 'a builder_scheme \<Rightarrow> 'a builder_scheme" where
  "addScoreGrid sc b =
     (let scoreItems =
            [(''Semantic Fit'', CandidateScores.semantic_relevance_score sc),
             (''Skill Match'', CandidateScores.skill_match_score sc),
             (''Experience Match'', CandidateScores.experience_match_score sc),
             (''Education Match'', CandidateScores.education_match_score sc)];
          itemWidth = contentWidth b / 4
      in run [checkAndAddPage 20,
              fold (addScoreItem itemWidth) (enumerate 0 scoreItems),
              \<lambda>b. b\<lparr>y := y b + 15\<rparr>] b)"

subsection \<open>The summary table\<close>

definition tableHead :: "string list" where
  "tableHead = [''Rank'', ''Name'', ''Overall'', ''Skill'', ''Experience'']"

text \<open>A body row, its cells already turned to strings as \<open>String(cell)\<close> does when painting.\<close>

definition tableRow :: "CandidateResult \<Rightarrow> string list" where
  "tableRow c =
     [show_nat (rank c),
      name (ScoredCandidate.parsed_resume c),
      percent (overall_match_score (ScoredCandidate.scores c)),
      percent (CandidateScores.skill_match_score (ScoredCandidate.scores c)),
      percent (CandidateScores.experience_match_score (ScoredCandidate.scores c))]"

definition rowHeight :: real where "rowHeight = 8"

definition colWidths :: "real list" where
  "colWidths = [15, 85, 25, 25, 25]"

text \<open>
  The loops over the cells of a row carry the local variable \<open>currentX\<close> beside the
  builder. Every row has five cells, so the index into \<open>colWidths\<close> stays in range.
\<close>

definition headCell :: "nat \<times> string \<Rightarrow> real \<times> 'a builder_scheme \<Rightarrow> real \<times> 'a builder_scheme" where
  "headCell = (\<lambda>(i, header) (currentX, b).
     (currentX + colWidths ! i,
      on_doc (doc_text [header] (currentX + 3) (y b + 5.5) None None) b))"

definition bodyCell :: "nat \<times> string \<Rightarrow> real \<times> 'a builder_scheme \<Rightarrow> real \<times> 'a builder_scheme" where
  "bodyCell = (\<lambda>(i, cell) (currentX, b).
     (currentX + colWidths ! i,
      on_doc (doc_text (splitTextToSize (doc b) cell (colWidths ! i - 6))
                (currentX + 3) (y b + 5.5) None None) b))"

definition bodyRow :: "nat \<times> string list \<Rightarrow> 'a builder_scheme \<Rightarrow> 'a builder_scheme" where
  "bodyRow = (\<lambda>(rowIndex, row) b.
     run [\<lambda>b. if rowIndex mod 2 \<noteq> 0
              then run [on_doc (setFillColor (249, 250, 251)),
                        \<lambda>b. on_doc (doc_rect MARGIN (y b) (contentWidth b) rowHeight (Some ''F'')) b] b
              else b,
          \<lambda>b. snd (fold bodyCell (enumerate 0 row) (MARGIN, b)),
          \<lambda>b. b\<lparr>y := y b + rowHeight\<rparr>] b)"

definition separatorLine :: "real \<Rightarrow> real \<Rightarrow> real \<times> 'a builder_scheme \<Rightarrow> real \<times> 'a builder_scheme" where
  "separatorLine startY w = (\<lambda>(x, b). (x + w, on_doc (doc_line (x + w) startY (x + w) (y b)) b))"

definition addSummaryTable :: "CandidateResult list \<Rightarrow> 'a builder_scheme \<Rightarrow> 'a builder_scheme" where
  "addSummaryTable candidates b =
     (let body = map tableRow candidates;
          startY = y b
      in run [checkAndAddPage (real (length body + 1) * rowHeight),
              on_doc (setFont ''helvetica'' ''bold''),
              on_doc (setFontSize FONT_BODY),
              on_doc (setFillColor (243, 244, 246)),
              \<lambda>b. on_doc (doc_rect MARGIN (y b) (contentWidth b) rowHeight (Some ''F'')) b,
              \<lambda>b. snd (fold headCell (enumerate 0 tableHead) (MARGIN, b)),
              \<lambda>b. b\<lparr>y := y b + rowHeight\<rparr>,
              on_doc (setFont ''helvetica'' ''normal''),
              fold bodyRow (enumerate 0 body),
              on_doc (setDrawColor (209, 213, 219)),
              \<lambda>b. on_doc (doc_rect MARGIN startY (contentWidth b) (y b - startY) None) b,
              \<lambda>b. snd (fold (separatorLine startY) (butlast colWidths) (MARGIN, b)),
              \<lambda>b. b\<lparr>y := y b + 5\<rparr>] b)"

definition addSeparator :: "'a builder_scheme \<Rightarrow> 'a builder_scheme" where
  "addSeparator b =
     run [checkAndAddPage 10,
          \<lambda>b. b\<lparr>y := y b + 5\<rparr>,
          on_doc (setDrawColor (229, 231, 235)),
          \<lambda>b. on_doc (doc_line MARGIN (y b) (pageWidth b - MARGIN) (y b)) b,
          \<lambda>b. b\<lparr>y := y b + 5\<rparr>] b"

subsection \<open>The styled section\<close>

text \<open>The test of \<open>addStyledSection\<close> for content that spanned a page break.\<close>

definition spansPageBreak :: "real \<Rightarrow> real \<Rightarrow> real \<Rightarrow> bool" where
  "spansPageBreak startY endY ph \<longleftrightarrow> \<lfloor>(startY - 0.1) / ph\<rfloor> \<noteq> \<lfloor>(endY - 0.1) / ph\<rfloor>"

text \<open>
  The first pass of \<open>addStyledSection\<close>, up to the assignment of \<open>endY\<close>: it returns
  \<open>startY\<close>, \<open>contentStartY\<close> and the builder, whose offset is \<open>endY\<close>.
\<close>

definition styledFirstPass ::
  "string \<Rightarrow> ('a builder_scheme \<Rightarrow> 'a builder_scheme) \<Rightarrow> 'a builder_scheme
     \<Rightarrow> real \<times> real \<times> 'a builder_scheme" where
  "styledFirstPass title content b =
     (let b1 = checkAndAddPage 15 b;
          startY = y b1;
          b2 = b1\<lparr>y := y b1 + 5\<rparr>;
          b3 = addSectionTitle title b2;
          b4 = b3\<lparr>y := y b3 + 2\<rparr>;
          contentStartY = y b4;
          b5 = content b4;
          b6 = b5\<lparr>y := y b5 + 5\<rparr>
      in (startY, contentStartY, b6))"

definition addStyledSection ::
  "string \<Rightarrow> ('a builder_scheme \<Rightarrow> 'a builder_scheme) \<Rightarrow> 'a builder_scheme \<Rightarrow> 'a builder_scheme" where
  "addStyledSection title content b =
     (case styledFirstPass title content b of (startY, contentStartY, b6) \<Rightarrow>
        (let endY = y b6
         in if spansPageBreak startY endY (pageHeight b6)
            then run [\<lambda>b. b\<lparr>y := contentStartY - 7\<rparr>,
                      addSectionTitle title,
                      \<lambda>b. b\<lparr>y := y b + 2\<rparr>,
                      content,
                      \<lambda>b. b\<lparr>y := endY\<rparr>] b6
            else run [on_doc (setFillColor (243, 244, 246)),
                      \<lambda>b. on_doc (doc_rect MARGIN startY (contentWidth b) (endY - startY) (Some ''F'')) b,
                      \<lambda>b. b\<lparr>y := contentStartY - 7\<rparr>,
                      addSectionTitle title,
                      \<lambda>b. b\<lparr>y := y b + 2\<rparr>,
                      content,
                      \<lambda>b. b\<lparr>y := endY\<rparr>] b6))"

subsection \<open>The footer finalizer\<close>

definition footerText :: "nat \<Rightarrow> nat \<Rightarrow> string" where
  "footerText i totalPages = ''Page '' @ show_nat i @ '' of '' @ show_nat totalPages"

definition addFooter :: "nat \<Rightarrow> nat \<Rightarrow> 'a builder_scheme \<Rightarrow> 'a builder_scheme" where
  "addFooter totalPages i b =
     (let footerY = pageHeight b - FOOTER_HEIGHT
      in run [on_doc (setPage i),
              on_doc (setFont ''helvetica'' ''normal''),
              on_doc (setFontSize FONT_SMALL),
              on_doc (setTextColor (150, 150, 150)),
              \<lambda>b. on_doc (doc_line MARGIN footerY (pageWidth b - MARGIN) footerY) b,
              \<lambda>b. on_doc (doc_text [footerText i totalPages] (pageWidth b / 2) (footerY + 6)
                      (Some ''center'') None) b] b)"

function footerLoop :: "nat \<Rightarrow> nat \<Rightarrow> 'a builder_scheme \<Rightarrow> 'a builder_scheme" where
  "footerLoop i totalPages b =
     (if i \<le> totalPages then footerLoop (i + 1) totalPages (addFooter totalPages i b) else b)"
  by pat_completeness auto
termination
  by (relation "measure (\<lambda>(i, totalPages, b). Suc totalPages - i)") auto

definition finalizeAndAddFooters :: "'a builder_scheme \<Rightarrow> 'a builder_scheme" where
  "finalizeAndAddFooters b = footerLoop 1 (getNumberOfPages (doc b)) b"

section \<open>The report assembler\<close>

definition bold :: BodyTextOptions where
  "bold = \<lparr>fontStyle = Some ''bold'', color = None\<rparr>"

definition addCandidateDetails :: "CandidateResult \<Rightarrow> 'a builder_scheme \<Rightarrow> 'a builder_scheme" where
  "addCandidateDetails candidate b =
     run [checkAndAddPage 150,
          addSectionTitle (''Rank '' @ show_nat (rank candidate) @ '': ''
             @ name (ScoredCandidate.parsed_resume candidate)),
          addBodyText (Some (''Overall Match: ''
             @ percent (overall_match_score (ScoredCandidate.scores candidate)))) bold,
          \<lambda>b. b\<lparr>y := y b + 5\<rparr>,
          addScoreGrid (ScoredCandidate.scores candidate),
          \<lambda>b. b\<lparr>y := y b + 5\<rparr>,
          addSectionTitle ''Reasoning for Rank'',
          addBodyText (Some (ScoredCandidate.reasoning candidate)) no_options,
          \<lambda>b. b\<lparr>y := y b + 5\<rparr>,
          addSectionTitle ''Strengths'',
          addBulletList (Some (ScoredCandidate.strengths candidate)),
          \<lambda>b. b\<lparr>y := y b + 5\<rparr>,
          addSectionTitle ''Weaknesses'',
          addBulletList (Some (ScoredCandidate.weaknesses candidate)),
          \<lambda>b. b\<lparr>y := y b + 5\<rparr>,
          addSectionTitle ''Fit Assessment'',
          addBulletList (Some (ScoredCandidate.fit_assessment candidate))] b"

definition renderBiasFlag :: "BiasFlag \<Rightarrow> 'a builder_scheme \<Rightarrow> 'a builder_scheme" where
  "renderBiasFlag fl b =
     run [addBodyText (Some (category fl @ '' ('' @ severity fl @ '')'')) bold,
          addBulletList (Some [flag fl]),
          \<lambda>b. b\<lparr>y := y b + 2\<rparr>] b"

definition renderBiasAnalysis :: "AnalysisResult \<Rightarrow> 'a builder_scheme \<Rightarrow> 'a builder_scheme" where
  "renderBiasAnalysis result b =
     (let flags = bias_flags (AnalysisResult.bias_analysis result)
      in if length flags > 0 then fold renderBiasFlag flags b
         else addBodyText (Some ''No concerning biases detected.'')
                \<lparr>fontStyle = None, color = Some (22, 101, 52)\<rparr> b)"

definition renderRecommendation :: "AnalysisResult \<Rightarrow> 'a builder_scheme \<Rightarrow> 'a builder_scheme" where
  "renderRecommendation result b =
     run [addBodyText (Some (''Top Candidate: ''
             @ top_candidate (AnalysisResult.final_recommendation result))) bold,
          addBodyText (Some (FinalRecommendation.reasoning
             (AnalysisResult.final_recommendation result))) no_options] b"

text \<open>
  \<open>generatePdf\<close>, up to the footer pass: its statements in order, run on a fresh builder.
  The page size and the wrapping come from the backend and the date string from the clock,
  so they are parameters; saving the file is outside the model.
\<close>

definition generatePdf_statements :: "string \<Rightarrow> AnalysisResult \<Rightarrow> (builder \<Rightarrow> builder) list" where
  "generatePdf_statements today result =
     [addHeader ''Job Applicant Screening Results'',
      \<lambda>b. b\<lparr>y := y b + 5\<rparr>,
      addBodyText (Some (''Role Analyzed: ''
         @ role (AnalysisResult.parsed_job_description result))) bold,
      addBodyText (Some (''Date Generated: '' @ today)) no_options,
      addSeparator,
      addSubheader ''Candidate Summary'',
      addSummaryTable (ranked_candidates result),
      addPage,
      addSubheader ''Detailed Candidate Analysis'',
      \<lambda>b. b\<lparr>y := y b + 5\<rparr>,
      fold (\<lambda>(index, candidate) b.
              run [addCandidateDetails candidate,
                   \<lambda>b. if int index < int (length (ranked_candidates result)) - 1
                        then addSeparator b else b] b)
           (enumerate 0 (ranked_candidates result)),
      checkAndAddPage 80,
      addSeparator,
      addStyledSection ''Bias Analysis Report'' (renderBiasAnalysis result),
      \<lambda>b. b\<lparr>y := y b + 10\<rparr>,
      addStyledSection ''Final Recommendation'' (renderRecommendation result),
      finalizeAndAddFooters]"

definition generatePdf ::
  "real \<Rightarrow> real \<Rightarrow> (gstate \<Rightarrow> string \<Rightarrow> real \<Rightarrow> string list) \<Rightarrow> string \<Rightarrow> AnalysisResult \<Rightarrow> builder" where
  "generatePdf pw ph w today result =
     run (generatePdf_statements today result) (PdfBuilder_new pw ph w)"

section \<open>Scoring and ranking (processAnalysis)\<close>

datatype error = Error string

text \<open>\<open>v || 0\<close> on a number that may be missing: a missing component and 0 both give 0.\<close>

definition orZero :: "real option \<Rightarrow> real" where
  "orZero v = (case v of None \<Rightarrow> 0 | Some x \<Rightarrow> x)"

definition noScores :: UnrankedCandidateScores where
  "noScores = \<lparr>UnrankedCandidateScores.skill_match_score = None,
               UnrankedCandidateScores.experience_match_score = None,
               UnrankedCandidateScores.education_match_score = None,
               UnrankedCandidateScores.semantic_relevance_score = None\<rparr>"

definition withOverall :: "UnrankedCandidateResult \<Rightarrow> ScoredCandidate" where
  "withOverall candidate =
     (let sc = (case UnrankedCandidateResult.scores candidate of None \<Rightarrow> noScores | Some s \<Rightarrow> s);
          semantic = max 0 (min 100 (orZero (UnrankedCandidateScores.semantic_relevance_score sc)));
          skill = max 0 (min 100 (orZero (UnrankedCandidateScores.skill_match_score sc)));
          experience = max 0 (min 100 (orZero (UnrankedCandidateScores.experience_match_score sc)));
          education = max 0 (min 100 (orZero (UnrankedCandidateScores.education_match_score sc)));
          overall = semantic * 0.45 + skill * 0.30 + experience * 0.20 + education * 0.05
      in \<lparr>parsed_resume = UnrankedCandidateResult.parsed_resume candidate,
          scores = \<lparr>skill_match_score = skill, experience_match_score = experience,
                     education_match_score = education, semantic_relevance_score = semantic,
                     overall_match_score = overall\<rparr>,
          reasoning = UnrankedCandidateResult.reasoning candidate,
          strengths = UnrankedCandidateResult.strengths candidate,
          weaknesses = UnrankedCandidateResult.weaknesses candidate,
          missing_skills = UnrankedCandidateResult.missing_skills candidate,
          fit_assessment = UnrankedCandidateResult.fit_assessment candidate\<rparr>)"

definition withRank :: "nat \<times> ScoredCandidate \<Rightarrow> CandidateResult" where
  "withRank = (\<lambda>(index, candidate).
     \<lparr>parsed_resume = ScoredCandidate.parsed_resume candidate,
      scores = ScoredCandidate.scores candidate,
      reasoning = ScoredCandidate.reasoning candidate,
      strengths = ScoredCandidate.strengths candidate,
      weaknesses = ScoredCandidate.weaknesses candidate,
      missing_skills = ScoredCandidate.missing_skills candidate,
      fit_assessment = ScoredCandidate.fit_assessment candidate,
      rank = index + 1\<rparr>)"

definition malformed :: error where
  "malformed = Error ''The AI's analysis was incomplete or malformed. It failed to return candidate data.''"

text \<open>
  \<open>Array.prototype.sort\<close> with the comparator \<open>b.overall - a.overall\<close> is a stable sort by
  descending overall score: \<^const>\<open>sort_key\<close> on the negated score.
\<close>

definition processAnalysis :: "RawAnalysisResult option \<Rightarrow> error + AnalysisResult" where
  "processAnalysis rawResult =
     (case rawResult of
        None \<Rightarrow> Inl malformed
      | Some raw \<Rightarrow>
          (case candidate_analysis raw of
             None \<Rightarrow> Inl malformed
           | Some cs \<Rightarrow>
               (let candidatesWithOverall = map withOverall cs;
                    sortedCandidates =
                      sort_key (\<lambda>c. - overall_match_score (ScoredCandidate.scores c)) candidatesWithOverall;
                    rankedCandidates = map withRank (enumerate 0 sortedCandidates)
                in Inr \<lparr>parsed_job_description =
                          (case RawAnalysisResult.parsed_job_description raw of
                             None \<Rightarrow> \<lparr>role = ''N/A'', required_skills = [], preferred_skills = [],
                                      minimum_experience = 0, education_required = ''N/A'',
                                      job_summary = ''N/A''\<rparr>
                           | Some j \<Rightarrow> j),
                        ranked_candidates = rankedCandidates,
                        bias_analysis =
                          (case RawAnalysisResult.bias_analysis raw of
                             None \<Rightarrow> \<lparr>bias_flags = []\<rparr> | Some ba \<Rightarrow> ba),
                        final_recommendation =
                          (case RawAnalysisResult.final_recommendation raw of
                             None \<Rightarrow> \<lparr>top_candidate = ''N/A'',
                                      FinalRecommendation.reasoning =
                                        ''Final recommendation was not provided.''\<rparr>
                           | Some fr \<Rightarrow> fr)\<rparr>)))"

section \<open>Notions of the statements and concrete inputs\<close>

text \<open>
  A wrapping that keeps every text on one line, and a builder fresh from the constructor
  on a page of 210 by 297 (the A4 page, in millimetres): the inputs at which the
  theorems below are instantiated.
\<close>

definition wrapLines :: "gstate \<Rightarrow> string \<Rightarrow> real \<Rightarrow> string list" where
  "wrapLines g s w = [s]"

definition A4 :: builder where
  "A4 = PdfBuilder_new 210 297 wrapLines"

text \<open>What no renderer touches: the page geometry, the extension and the wrapping.\<close>

definition frame :: "'a builder_scheme \<Rightarrow> 'a builder_scheme \<Rightarrow> bool" where
  "frame b b' \<longleftrightarrow> pageHeight b' = pageHeight b \<and> pageWidth b' = pageWidth b \<and>
     contentWidth b' = contentWidth b \<and> builder.more b' = builder.more b \<and>
     wrap (doc b') = wrap (doc b)"

text \<open>
  The scores as the specification words them: each component clamped to the interval from
  0 to 100 (a missing one counting as 0), the overall score their weighted sum.
\<close>

definition clamp :: "real \<Rightarrow> real \<Rightarrow> real \<Rightarrow> real" where
  "clamp lo hi x = (if x < lo then lo else if hi < x then hi else x)"

definition spec_component :: "real option \<Rightarrow> real" where
  "spec_component v = (case v of None \<Rightarrow> 0 | Some x \<Rightarrow> clamp 0 100 x)"

definition spec_scores :: "UnrankedCandidateResult \<Rightarrow> CandidateScores" where
  "spec_scores c =
     (let raw = UnrankedCandidateResult.scores c;
          semantic = (case raw of None \<Rightarrow> 0
             | Some s \<Rightarrow> spec_component (UnrankedCandidateScores.semantic_relevance_score s));
          skill = (case raw of None \<Rightarrow> 0
             | Some s \<Rightarrow> spec_component (UnrankedCandidateScores.skill_match_score s));
          experience = (case raw of None \<Rightarrow> 0
             | Some s \<Rightarrow> spec_component (UnrankedCandidateScores.experience_match_score s));
          education = (case raw of None \<Rightarrow> 0
             | Some s \<Rightarrow> spec_component (UnrankedCandidateScores.education_match_score s))
      in \<lparr>skill_match_score = skill, experience_match_score = experience,
          education_match_score = education, semantic_relevance_score = semantic,
          overall_match_score =
            0.45 * semantic + 0.30 * skill + 0.20 * experience + 0.05 * education\<rparr>)"

text \<open>Example candidates and an example raw result.\<close>

definition exampleResume :: ParsedResume where
  "exampleResume =
     \<lparr>name = ''Ada'', email = ''ada@example.org'', phone = ''0'', skills = [''React''],
      experience_years = 6, education_level = ''BSc'', work_history_summary = ''Frontend'',
      projects = [], certifications = [], short_summary = ''Engineer''\<rparr>"

definition exampleCandidate :: "UnrankedCandidateScores option \<Rightarrow> UnrankedCandidateResult" where
  "exampleCandidate sc =
     \<lparr>UnrankedCandidateResult.parsed_resume = exampleResume,
      UnrankedCandidateResult.scores = sc,
      UnrankedCandidateResult.reasoning = ''Good fit'',
      UnrankedCandidateResult.strengths = [''React''],
      UnrankedCandidateResult.weaknesses = [],
      UnrankedCandidateResult.missing_skills = [],
      UnrankedCandidateResult.fit_assessment = [''Strong'']\<rparr>"

definition exampleScores :: "real \<Rightarrow> real \<Rightarrow> real \<Rightarrow> real \<Rightarrow> UnrankedCandidateScores" where
  "exampleScores semantic skill experience education =
     \<lparr>UnrankedCandidateScores.skill_match_score = Some skill,
      UnrankedCandidateScores.experience_match_score = Some experience,
      UnrankedCandidateScores.education_match_score = Some education,
      UnrankedCandidateScores.semantic_relevance_score = Some semantic\<rparr>"

definition exampleRaw :: "UnrankedCandidateResult list \<Rightarrow> RawAnalysisResult" where
  "exampleRaw cs =
     \<lparr>RawAnalysisResult.parsed_job_description = None, candidate_analysis = Some cs,
      RawAnalysisResult.bias_analysis = None, RawAnalysisResult.final_recommendation = None\<rparr>"

text \<open>
  The band in which the cursor may rest and the height a fresh page offers.
\<close>

definition inBand :: "'a builder_scheme \<Rightarrow> bool" where
  "inBand b \<longleftrightarrow> MARGIN \<le> y b \<and> y b \<le> pageHeight b - MARGIN - FOOTER_HEIGHT"

definition usable :: "'a builder_scheme \<Rightarrow> real" where
  "usable b = pageHeight b - 2 * MARGIN - FOOTER_HEIGHT"

text \<open>
  The height that \<open>addBodyText\<close> and \<open>addBulletList\<close> compute for a text at a builder: the
  text is wrapped by the backend of that builder, in its graphics state of that moment.
  The items of a bullet list fit when each of them, wrapped at the builder at which the
  loop reaches it, is no taller than the usable height of a page.
\<close>

definition textHeight :: "'a builder_scheme \<Rightarrow> string \<Rightarrow> real \<Rightarrow> real" where
  "textHeight b s w = lineHeight (length (splitTextToSize (doc b) s w))"

fun itemsFit :: "string list \<Rightarrow> 'a builder_scheme \<Rightarrow> bool" where
  "itemsFit [] b = True"
| "itemsFit (item # rest) b =
     (textHeight b item (contentWidth b - 5) \<le> usable b \<and> itemsFit rest (addBulletItem item b))"

text \<open>
  The builder at which \<open>addStyledSection\<close> invokes its content procedure in the first pass:
  after the capacity check, the top padding, the title and the gap below the title.
\<close>

definition contentEntry :: "string \<Rightarrow> 'a builder_scheme \<Rightarrow> 'a builder_scheme" where
  "contentEntry title b =
     (let b1 = checkAndAddPage 15 b;
          b2 = b1\<lparr>y := y b1 + 5\<rparr>;
          b3 = addSectionTitle title b2
      in b3\<lparr>y := y b3 + 2\<rparr>)"

text \<open>
  A step that does not decrease the offset unless it begins a page: the page counter does
  not fall, and where it stays the offset does not fall.
\<close>

definition advances :: "'a builder_scheme \<Rightarrow> 'a builder_scheme \<Rightarrow> bool" where
  "advances b b' \<longleftrightarrow>
     pageNumber b \<le> pageNumber b' \<and> (pageNumber b' = pageNumber b \<longrightarrow> y b \<le> y b')"

text \<open>A ranked list of \<open>n\<close> copies of the example candidate with the scores 90, 80, 70, 60.\<close>

definition exampleRanked :: "nat \<Rightarrow> CandidateResult list" where
  "exampleRanked n = map withRank (enumerate 0
     (replicate n (withOverall (exampleCandidate (Some (exampleScores 90 80 70 60))))))"

text \<open>
  A content procedure that paints nothing, moves the cursor down by \<open>d\<close> and records in
  the extension of the builder the cursor (page counter and offset) as it finds it and as
  it leaves it; and when one recorded cursor may follow another under the rule that only
  beginning a page decreases the offset.
\<close>

definition probe :: "real \<Rightarrow> (nat \<times> real) list builder_scheme \<Rightarrow> (nat \<times> real) list builder_scheme" where
  "probe d s = builder.more_update (\<lambda>l. l @ [(pageNumber s, y s), (pageNumber s, y s + d)])
     (s\<lparr>y := y s + d\<rparr>)"

definition cursorStep :: "nat \<times> real \<Rightarrow> nat \<times> real \<Rightarrow> bool" where
  "cursorStep p q \<longleftrightarrow> fst p \<le> fst q \<and> (fst q = fst p \<longrightarrow> snd p \<le> snd q)"

text \<open>
  A content procedure that counts its invocations in the extension of the builder, and one
  that only moves the cursor down, as \<open>builder.y += d\<close> does.
\<close>

definition counted :: "(nat builder_scheme \<Rightarrow> nat builder_scheme) \<Rightarrow> nat builder_scheme \<Rightarrow> nat builder_scheme" where
  "counted c s = builder.more_update Suc (c s)"

definition jump :: "real \<Rightarrow> 'a builder_scheme \<Rightarrow> 'a builder_scheme" where
  "jump d b = b\<lparr>y := y b + d\<rparr>"

text \<open>
  The footer the specification describes for page \<open>i\<close> of a finished document: a rule
  line and, centred beneath it, the text "Page i of N" with N the number of pages, both in
  the small grey footer style.
\<close>

definition footerGs :: "gstate \<Rightarrow> gstate" where
  "footerGs g = g\<lparr>font_name := ''helvetica'', font_style := ''normal'', font_size := 8,
     text_color := (150, 150, 150)\<rparr>"

definition footerOf :: "'a builder_scheme \<Rightarrow> nat \<Rightarrow> paint list" where
  "footerOf b i =
     [(footerGs (gs (doc b)),
       Line MARGIN (pageHeight b - FOOTER_HEIGHT) (pageWidth b - MARGIN) (pageHeight b - FOOTER_HEIGHT)),
      (footerGs (gs (doc b)),
       Text [''Page '' @ show_nat i @ '' of '' @ show_nat (length (pages (doc b)))]
         (pageWidth b / 2) (pageHeight b - FOOTER_HEIGHT + 6) (Some ''center'') None)]"

text \<open>
  The graphics state in which \<open>addBulletList\<close> paints its placeholder, and the shapes
  painted so far on the current page.
\<close>

definition italicBody :: "gstate \<Rightarrow> gstate" where
  "italicBody g = g\<lparr>font_name := ''helvetica'', font_style := ''italic'', font_size := 10,
     text_color := (75, 85, 99)\<rparr>"

definition currentPaints :: "'a builder_scheme \<Rightarrow> paint list" where
  "currentPaints b = pages (doc b) ! (currentPage (doc b) - 1)"

definition validPage :: "'a builder_scheme \<Rightarrow> bool" where
  "validPage b \<longleftrightarrow> 0 < currentPage (doc b) \<and> currentPage (doc b) \<le> length (pages (doc b))"

text \<open>An example analysis result with a given number of candidates and of bias flags.\<close>

definition exampleResult :: "nat \<Rightarrow> nat \<Rightarrow> AnalysisResult" where
  "exampleResult n k =
     \<lparr>parsed_job_description =
        \<lparr>role = ''Engineer'', required_skills = [''React''], preferred_skills = [],
         minimum_experience = 5, education_required = ''BSc'', job_summary = ''Frontend''\<rparr>,
      ranked_candidates = exampleRanked n,
      bias_analysis = \<lparr>bias_flags =
        replicate k \<lparr>flag = ''Age is mentioned'', category = ''Age'', severity = ''Low''\<rparr>\<rparr>,
      final_recommendation =
        \<lparr>top_candidate = ''Ada'', FinalRecommendation.reasoning = ''Best match''\<rparr>\<rparr>"

text \<open>
  Everything painted so far, on whatever page; and a step that erases nothing and keeps
  the current page a page of the document.
\<close>

definition painted :: "'a builder_scheme \<Rightarrow> paint set" where
  "painted b = set (concat (pages (doc b)))"

definition grows :: "'a builder_scheme \<Rightarrow> 'a builder_scheme \<Rightarrow> bool" where
  "grows b b' \<longleftrightarrow> painted b \<subseteq> painted b' \<and> (validPage b \<longrightarrow> validPage b')"

text \<open>A step that neither adds a page nor switches the current page.\<close>

definition samePage :: "'a builder_scheme \<Rightarrow> 'a builder_scheme \<Rightarrow> bool" where
  "samePage b b' \<longleftrightarrow> currentPage (doc b') = currentPage (doc b) \<and>
     length (pages (doc b')) = length (pages (doc b))"

text \<open>
  A wrapping that breaks a text after every \<open>n\<close> characters, an A4 builder that wraps after
  every 100 characters, and an analysis result with no candidate, no bias flag and a
  reasoning of 4000 characters for the final recommendation.
\<close>

fun chunks :: "nat \<Rightarrow> 'a list \<Rightarrow> 'a list list" where
  "chunks n xs = (if n = 0 \<or> length xs \<le> n then [xs] else take n xs # chunks n (drop n xs))"

definition wrapEvery :: "nat \<Rightarrow> gstate \<Rightarrow> string \<Rightarrow> real \<Rightarrow> string list" where
  "wrapEvery n g s w = chunks n s"

definition A4w :: builder where
  "A4w = PdfBuilder_new 210 297 (wrapEvery 100)"

definition longResult :: AnalysisResult where
  "longResult =
     \<lparr>parsed_job_description =
        \<lparr>role = ''Engineer'', required_skills = [''React''], preferred_skills = [],
         minimum_experience = 5, education_required = ''BSc'', job_summary = ''Frontend''\<rparr>,
      ranked_candidates = [],
      bias_analysis = \<lparr>bias_flags = []\<rparr>,
      final_recommendation =
        \<lparr>top_candidate = ''Ada'',
         FinalRecommendation.reasoning = replicate 4000 (CHR ''a'')\<rparr>\<rparr>"

section \<open>Properties\<close>

lemma y_on_doc [simp]: "y (on_doc f b) = y b"
  by (simp add: on_doc_def)

lemma pageNumber_on_doc [simp]: "pageNumber (on_doc f b) = pageNumber b"
  by (simp add: on_doc_def)

lemma pageHeight_on_doc [simp]: "pageHeight (on_doc f b) = pageHeight b"
  by (simp add: on_doc_def)

lemma pageWidth_on_doc [simp]: "pageWidth (on_doc f b) = pageWidth b"
  by (simp add: on_doc_def)

lemma contentWidth_on_doc [simp]: "contentWidth (on_doc f b) = contentWidth b"
  by (simp add: on_doc_def)

lemma more_on_doc [simp]: "builder.more (on_doc f b) = builder.more b"
  by (simp add: on_doc_def)

lemma doc_on_doc [simp]: "doc (on_doc f b) = f (doc b)"
  by (simp add: on_doc_def)

lemma y_addPage [simp]: "y (addPage b) = MARGIN"
  by (simp add: addPage_def addPageHeader_def)

lemma pageNumber_addPage [simp]: "pageNumber (addPage b) = Suc (pageNumber b)"
  by (simp add: addPage_def addPageHeader_def)

lemma pageHeight_addPage [simp]: "pageHeight (addPage b) = pageHeight b"
  by (simp add: addPage_def addPageHeader_def)

lemma pageWidth_addPage [simp]: "pageWidth (addPage b) = pageWidth b"
  by (simp add: addPage_def addPageHeader_def)

lemma contentWidth_addPage [simp]: "contentWidth (addPage b) = contentWidth b"
  by (simp add: addPage_def addPageHeader_def)

lemma more_addPage [simp]: "builder.more (addPage b) = builder.more b"
  by (simp add: addPage_def addPageHeader_def)

text \<open>
  C1. \<open>checkAndAddPage h\<close> with \<open>h\<close> at most the remaining space
  (\<open>pageHeight - MARGIN - FOOTER_HEIGHT - y\<close>) leaves the page index and the vertical
  offset unchanged (indeed the whole builder); with \<open>h\<close> above the remaining space it
  increments the page index exactly once and resets the offset to the margin.
\<close>

theorem checkAndAddPage_fits_or_breaks:
  "(h \<le> pageHeight b - MARGIN - FOOTER_HEIGHT - y b \<longrightarrow>
      pageNumber (checkAndAddPage h b) = pageNumber b \<and>
      y (checkAndAddPage h b) = y b \<and> checkAndAddPage h b = b) \<and>
   (h > pageHeight b - MARGIN - FOOTER_HEIGHT - y b \<longrightarrow>
      pageNumber (checkAndAddPage h b) = pageNumber b + 1 \<and>
      y (checkAndAddPage h b) = MARGIN)"
  by (auto simp: checkAndAddPage_def)

lemma A4_fields:
  "y A4 = 15" "pageHeight A4 = 297" "pageNumber A4 = 1" "pageWidth A4 = 210"
  "contentWidth A4 = 180"
  by (simp_all add: A4_def PdfBuilder_new_def MARGIN_def)

theorem checkAndAddPage_fits_or_breaks_witness:
  "checkAndAddPage 20 A4 = A4 \<and>
   pageNumber (checkAndAddPage 300 A4) = 2 \<and> y (checkAndAddPage 300 A4) = 15"
  using checkAndAddPage_fits_or_breaks [of 20 A4] checkAndAddPage_fits_or_breaks [of 300 A4]
  by (simp add: A4_fields MARGIN_def FOOTER_HEIGHT_def)

subsection \<open>Scoring\<close>

lemma clamp_max_min: "max 0 (min 100 x) = clamp 0 100 (x::real)"
  by (simp add: clamp_def max_def min_def)

lemma scores_withOverall: "ScoredCandidate.scores (withOverall c) = spec_scores c"
  by (simp add: withOverall_def spec_scores_def Let_def noScores_def orZero_def
      spec_component_def clamp_max_min clamp_def split: option.splits)

lemma scores_withRank: "ScoredCandidate.scores (withRank p) = ScoredCandidate.scores (snd p)"
  by (cases p) (simp add: withRank_def)

lemma map_scores_withRank:
  "map ScoredCandidate.scores (map withRank (enumerate n xs)) = map ScoredCandidate.scores xs"
  by (induction xs arbitrary: n) (simp_all add: scores_withRank)

lemma processAnalysis_Inr:
  assumes "processAnalysis rawResult = Inr res"
  obtains raw cs where "rawResult = Some raw" and "candidate_analysis raw = Some cs"
  using assms by (auto simp: processAnalysis_def split: option.splits)

lemma processAnalysis_accepts:
  "candidate_analysis raw = Some cs \<Longrightarrow> \<exists>res. processAnalysis (Some raw) = Inr res"
  by (simp add: processAnalysis_def Let_def)

lemma ranked_scores:
  assumes a: "candidate_analysis raw = Some cs" and r: "processAnalysis (Some raw) = Inr res"
  shows "mset (map ScoredCandidate.scores (ranked_candidates res)) = mset (map spec_scores cs)"
proof -
  let ?k = "\<lambda>c. - overall_match_score (ScoredCandidate.scores c)"
  from a r have "ranked_candidates res
      = map withRank (enumerate 0 (sort_key ?k (map withOverall cs)))"
    by (auto simp: processAnalysis_def Let_def)
  then have "map ScoredCandidate.scores (ranked_candidates res)
      = map ScoredCandidate.scores (sort_key ?k (map withOverall cs))"
    by (simp only: map_scores_withRank)
  then have "mset (map ScoredCandidate.scores (ranked_candidates res))
      = image_mset ScoredCandidate.scores (mset (sort_key ?k (map withOverall cs)))"
    by simp
  also have "\<dots> = image_mset ScoredCandidate.scores (mset (map withOverall cs))"
    by (simp only: mset_sort)
  also have "\<dots> = mset (map spec_scores cs)"
    by (simp add: scores_withOverall comp_def multiset.map_comp)
  finally show ?thesis .
qed

lemma spec_component_bounds: "0 \<le> spec_component v \<and> spec_component v \<le> 100"
  by (simp add: spec_component_def clamp_def split: option.splits)

lemma spec_scores_overall_bounds:
  "0 \<le> overall_match_score (spec_scores c) \<and> overall_match_score (spec_scores c) \<le> 100"
proof (cases "UnrankedCandidateResult.scores c")
  case None
  then show ?thesis by (simp add: spec_scores_def)
next
  case (Some s)
  let ?a = "spec_component (UnrankedCandidateScores.semantic_relevance_score s)"
  let ?b = "spec_component (UnrankedCandidateScores.skill_match_score s)"
  let ?c = "spec_component (UnrankedCandidateScores.experience_match_score s)"
  let ?d = "spec_component (UnrankedCandidateScores.education_match_score s)"
  have "0 \<le> ?a \<and> ?a \<le> 100" "0 \<le> ?b \<and> ?b \<le> 100" "0 \<le> ?c \<and> ?c \<le> 100"
    "0 \<le> ?d \<and> ?d \<le> 100"
    by (rule spec_component_bounds)+
  then have "0 \<le> 0.45 * ?a + 0.30 * ?b + 0.20 * ?c + 0.05 * ?d \<and>
      0.45 * ?a + 0.30 * ?b + 0.20 * ?c + 0.05 * ?d \<le> 100"
    by simp
  with Some show ?thesis by (simp add: spec_scores_def Let_def)
qed

text \<open>
  C8. For every raw analysis that \<open>processAnalysis\<close> accepts, the scores of the ranked
  candidates are, candidate for candidate (as a multiset: ranking only reorders), the
  scores of the specification: each component clamped to the interval from 0 to 100, then
  the overall score \<open>0.45 semantic + 0.30 skill + 0.20 experience + 0.05 education\<close>. The
  components 90, 80, 70 and 60 give the overall score 81.5.
\<close>

theorem processAnalysis_weighted_overall:
  "(candidate_analysis raw = Some cs \<longrightarrow>
      (\<exists>res. processAnalysis (Some raw) = Inr res \<and>
         mset (map ScoredCandidate.scores (ranked_candidates res)) = mset (map spec_scores cs))) \<and>
   overall_match_score (ScoredCandidate.scores
      (withOverall (exampleCandidate (Some (exampleScores 90 80 70 60))))) = 81.5"
proof (intro conjI impI)
  assume a: "candidate_analysis raw = Some cs"
  then obtain res where r: "processAnalysis (Some raw) = Inr res"
    using processAnalysis_accepts by blast
  with a have "mset (map ScoredCandidate.scores (ranked_candidates res)) = mset (map spec_scores cs)"
    by (rule ranked_scores)
  with r show "\<exists>res. processAnalysis (Some raw) = Inr res \<and>
      mset (map ScoredCandidate.scores (ranked_candidates res)) = mset (map spec_scores cs)"
    by blast
next
  show "overall_match_score (ScoredCandidate.scores
      (withOverall (exampleCandidate (Some (exampleScores 90 80 70 60))))) = 81.5"
    by (simp add: withOverall_def exampleCandidate_def exampleScores_def orZero_def)
qed

theorem processAnalysis_weighted_overall_witness:
  "\<exists>res. processAnalysis (Some (exampleRaw
       [exampleCandidate (Some (exampleScores 50 150 (- 3) 60)),
        exampleCandidate (Some (exampleScores 90 80 70 60))])) = Inr res \<and>
     map (\<lambda>c. overall_match_score (ScoredCandidate.scores c)) (ranked_candidates res)
       = [81.5, 55.5] \<and>
     map rank (ranked_candidates res) = [1, 2]"
  using processAnalysis_weighted_overall
    [of "exampleRaw [exampleCandidate (Some (exampleScores 50 150 (- 3) 60)),
                     exampleCandidate (Some (exampleScores 90 80 70 60))]"
        "[exampleCandidate (Some (exampleScores 50 150 (- 3) 60)),
          exampleCandidate (Some (exampleScores 90 80 70 60))]"]
  by (simp add: processAnalysis_def exampleRaw_def withOverall_def exampleCandidate_def
      exampleScores_def orZero_def withRank_def enumerate_eq_zip)

text \<open>
  C10. For every raw analysis result that \<open>processAnalysis\<close> accepts, whatever real or
  missing component scores it holds, the overall score of every ranked candidate lies
  between 0 and 100.
\<close>

theorem processAnalysis_overall_in_range:
  assumes "processAnalysis rawResult = Inr res"
  shows "\<forall>c \<in> set (ranked_candidates res).
           0 \<le> overall_match_score (ScoredCandidate.scores c) \<and>
           overall_match_score (ScoredCandidate.scores c) \<le> 100"
proof
  fix c
  assume c: "c \<in> set (ranked_candidates res)"
  from assms obtain raw cs where raw: "rawResult = Some raw" "candidate_analysis raw = Some cs"
    by (rule processAnalysis_Inr)
  from assms raw(1) have "processAnalysis (Some raw) = Inr res"
    by simp
  with raw(2) have "mset (map ScoredCandidate.scores (ranked_candidates res))
      = mset (map spec_scores cs)"
    by (rule ranked_scores)
  then have "set (map ScoredCandidate.scores (ranked_candidates res)) = set (map spec_scores cs)"
    by (rule mset_eq_setD)
  with c have "ScoredCandidate.scores c \<in> spec_scores ` set cs"
    by auto
  then obtain u where "ScoredCandidate.scores c = spec_scores u"
    by blast
  then show "0 \<le> overall_match_score (ScoredCandidate.scores c) \<and>
      overall_match_score (ScoredCandidate.scores c) \<le> 100"
    by (simp add: spec_scores_overall_bounds)
qed

theorem processAnalysis_overall_in_range_witness:
  "\<exists>res. processAnalysis (Some (exampleRaw
       [exampleCandidate (Some (exampleScores 500 150 (- 3) 600)), exampleCandidate None,
        exampleCandidate (Some noScores)])) = Inr res \<and>
     map (\<lambda>c. overall_match_score (ScoredCandidate.scores c)) (ranked_candidates res)
       = [80, 0, 0] \<and>
     list_all (\<lambda>c. 0 \<le> overall_match_score (ScoredCandidate.scores c) \<and>
                    overall_match_score (ScoredCandidate.scores c) \<le> 100)
       (ranked_candidates res)"
proof -
  let ?raw = "exampleRaw [exampleCandidate (Some (exampleScores 500 150 (- 3) 600)),
     exampleCandidate None, exampleCandidate (Some noScores)]"
  obtain res where r: "processAnalysis (Some ?raw) = Inr res"
    by (simp add: processAnalysis_def exampleRaw_def)
  have v: "map (\<lambda>c. overall_match_score (ScoredCandidate.scores c)) (ranked_candidates res)
      = [80, 0, 0]"
    using r by (auto simp: processAnalysis_def exampleRaw_def withOverall_def
        exampleCandidate_def exampleScores_def orZero_def withRank_def enumerate_eq_zip
        noScores_def)
  from processAnalysis_overall_in_range [OF r] have "list_all
      (\<lambda>c. 0 \<le> overall_match_score (ScoredCandidate.scores c) \<and>
            overall_match_score (ScoredCandidate.scores c) \<le> 100) (ranked_candidates res)"
    by (simp add: list_all_iff)
  with r v show ?thesis
    by - (rule exI [of _ res], intro conjI, assumption+)
qed

subsection \<open>What the renderers do to the cursor\<close>

lemma wrap_ops [simp]:
  "wrap (setFont n s d) = wrap d" "wrap (setFontSize z d) = wrap d"
  "wrap (setTextColor c d) = wrap d" "wrap (setFillColor c d) = wrap d"
  "wrap (setDrawColor c d) = wrap d" "wrap (paint_on sh d) = wrap d"
  "wrap (doc_addPage d) = wrap d" "wrap (setPage i d) = wrap d"
  by (simp_all add: setFont_def setFontSize_def setTextColor_def setFillColor_def
      setDrawColor_def paint_on_def doc_addPage_def setPage_def)

lemma wrap_draw [simp]:
  "wrap (doc_text ls x0 y0 al lhf d) = wrap d" "wrap (doc_line x1 y1 x2 y2 d) = wrap d"
  "wrap (doc_rect x0 y0 w h st d) = wrap d"
  by (simp_all add: doc_text_def doc_line_def doc_rect_def)

lemma frame_refl [simp]: "frame b b" by (simp add: frame_def)
lemma frame_trans: "frame a b \<Longrightarrow> frame b c \<Longrightarrow> frame a c" by (simp add: frame_def)

lemma frame_y_update [simp]: "frame b (b'\<lparr>y := v\<rparr>) = frame b b'" by (simp add: frame_def)
lemma frame_on_doc: "wrap (f (doc b')) = wrap (doc b') \<Longrightarrow> frame b (on_doc f b') = frame b b'"
  by (simp add: frame_def)

lemma frame_addPage: "frame b (addPage b)"
  by (simp add: frame_def addPage_def addPageHeader_def)

lemma frame_checkAndAddPage: "frame b (checkAndAddPage h b)"
  by (simp add: checkAndAddPage_def frame_addPage)

lemma frame_fold: "(\<And>x s. frame s (f x s)) \<Longrightarrow> frame b (fold f xs b)"
proof (induction xs arbitrary: b)
  case Nil
  then show ?case by simp
next
  case (Cons a xs)
  have "frame b (f a b)" by (rule Cons.prems)
  moreover have "frame (f a b) (fold f xs (f a b))" by (rule Cons.IH) (rule Cons.prems)
  ultimately show ?case by (auto intro: frame_trans)
qed

text \<open>The cursor after each renderer, in terms of the cursor after its capacity check.\<close>

lemma y_checkAndAddPage:
  "y (checkAndAddPage h b) = (if y b + h > pageHeight b - MARGIN - FOOTER_HEIGHT then MARGIN else y b)"
  by (simp add: checkAndAddPage_def)

lemma pageNumber_checkAndAddPage:
  "pageNumber (checkAndAddPage h b) =
     (if y b + h > pageHeight b - MARGIN - FOOTER_HEIGHT then Suc (pageNumber b) else pageNumber b)"
  by (simp add: checkAndAddPage_def)

lemma cursor_addHeader:
  "y (addHeader s b) = y (checkAndAddPage 20 b) + 14"
  "pageNumber (addHeader s b) = pageNumber (checkAndAddPage 20 b)"
  "frame b (addHeader s b)"
  using frame_checkAndAddPage [of b 20] by (simp_all add: addHeader_def FONT_H1_def frame_def)

lemma cursor_addSubheader:
  "y (addSubheader s b) = y (checkAndAddPage 15 b) + 14.4"
  "pageNumber (addSubheader s b) = pageNumber (checkAndAddPage 15 b)"
  "frame b (addSubheader s b)"
  using frame_checkAndAddPage [of b 15] by (simp_all add: addSubheader_def FONT_H2_def frame_def)

lemma cursor_addSectionTitle:
  "y (addSectionTitle s b) = y (checkAndAddPage 10 b) + 8.4"
  "pageNumber (addSectionTitle s b) = pageNumber (checkAndAddPage 10 b)"
  "frame b (addSectionTitle s b)"
  using frame_checkAndAddPage [of b 10] by (simp_all add: addSectionTitle_def FONT_H3_def frame_def)

lemma cursor_addSeparator:
  "y (addSeparator b) = y (checkAndAddPage 10 b) + 10"
  "pageNumber (addSeparator b) = pageNumber (checkAndAddPage 10 b)"
  "frame b (addSeparator b)"
  using frame_checkAndAddPage [of b 10] by (simp_all add: addSeparator_def frame_def)

lemma cursor_addBodyText:
  "y (addBodyText (Some s) opts b) =
     y (checkAndAddPage (lineHeight (length (splitTextToSize (doc b) s (contentWidth b)))) b)
       + lineHeight (length (splitTextToSize (doc b) s (contentWidth b)))"
  "pageNumber (addBodyText (Some s) opts b) =
     pageNumber (checkAndAddPage (lineHeight (length (splitTextToSize (doc b) s (contentWidth b)))) b)"
  "frame b (addBodyText (Some s) opts b)"
  using frame_checkAndAddPage [of b "lineHeight (length (splitTextToSize (doc b) s (contentWidth b)))"]
  by (simp_all add: addBodyText_def Let_def frame_def)

lemma cursor_addBulletItem:
  "y (addBulletItem s b) =
     y (checkAndAddPage (lineHeight (length (splitTextToSize (doc b) s (contentWidth b - 5)))) b)
       + lineHeight (length (splitTextToSize (doc b) s (contentWidth b - 5)))"
  "pageNumber (addBulletItem s b) =
     pageNumber (checkAndAddPage (lineHeight (length (splitTextToSize (doc b) s (contentWidth b - 5)))) b)"
  "frame b (addBulletItem s b)"
  using frame_checkAndAddPage [of b "lineHeight (length (splitTextToSize (doc b) s (contentWidth b - 5)))"]
  by (simp_all add: addBulletItem_def Let_def frame_def)

lemma frame_addBodyText: "frame b (addBodyText t opts b)"
  by (cases t) (simp_all add: cursor_addBodyText, simp add: addBodyText_def)

lemma frame_addBulletList: "frame b (addBulletList its b)"
  by (auto simp: addBulletList_def frame_addBodyText cursor_addBulletItem intro!: frame_fold split: option.splits)

lemma cursor_addScoreItem:
  "y (addScoreItem w p b) = y b" "pageNumber (addScoreItem w p b) = pageNumber b"
  "frame b (addScoreItem w p b)"
  by (cases p; simp add: addScoreItem_def frame_def)+

lemma fold_keeps:
  assumes "\<And>x s. y (f x s) = y s" "\<And>x s. pageNumber (f x s) = pageNumber s"
  shows "y (fold f xs b) = y b \<and> pageNumber (fold f xs b) = pageNumber b"
  by (induction xs arbitrary: b) (simp_all add: assms)

lemma cursor_addScoreGrid:
  "y (addScoreGrid sc b) = y (checkAndAddPage 20 b) + 15"
  "pageNumber (addScoreGrid sc b) = pageNumber (checkAndAddPage 20 b)"
  "frame b (addScoreGrid sc b)"
proof -
  let ?its = "enumerate 0 [(''Semantic Fit'', CandidateScores.semantic_relevance_score sc),
             (''Skill Match'', CandidateScores.skill_match_score sc),
             (''Experience Match'', CandidateScores.experience_match_score sc),
             (''Education Match'', CandidateScores.education_match_score sc)]"
  let ?b1 = "checkAndAddPage 20 b"
  have k: "y (fold (addScoreItem (contentWidth b / 4)) ?its ?b1) = y ?b1 \<and>
      pageNumber (fold (addScoreItem (contentWidth b / 4)) ?its ?b1) = pageNumber ?b1"
    by (rule fold_keeps) (rule cursor_addScoreItem)+
  have f: "frame ?b1 (fold (addScoreItem (contentWidth b / 4)) ?its ?b1)"
    by (rule frame_fold) (rule cursor_addScoreItem)
  show "y (addScoreGrid sc b) = y (checkAndAddPage 20 b) + 15"
    using k by (simp add: addScoreGrid_def Let_def)
  show "pageNumber (addScoreGrid sc b) = pageNumber (checkAndAddPage 20 b)"
    using k by (simp add: addScoreGrid_def Let_def)
  show "frame b (addScoreGrid sc b)"
    using frame_trans [OF frame_checkAndAddPage f] by (simp add: addScoreGrid_def Let_def)
qed

lemma fold_pair_keeps:
  assumes "\<And>x q. y (snd (f x q)) = y (snd q)" "\<And>x q. pageNumber (snd (f x q)) = pageNumber (snd q)"
    "\<And>x q. frame (snd q) (snd (f x q))"
  shows "y (snd (fold f xs q)) = y (snd q) \<and> pageNumber (snd (fold f xs q)) = pageNumber (snd q)
     \<and> frame (snd q) (snd (fold f xs q))"
proof (induction xs arbitrary: q)
  case Nil
  show ?case by simp
next
  case (Cons a xs)
  from Cons.IH [of "f a q"] assms [where x = a and q = q] show ?case
    by (auto intro: frame_trans)
qed

lemma cursor_headCell:
  "y (snd (headCell p q)) = y (snd q)" "pageNumber (snd (headCell p q)) = pageNumber (snd q)"
  "frame (snd q) (snd (headCell p q))"
  by (cases p; cases q; simp add: headCell_def frame_def)+

lemma cursor_bodyCell:
  "y (snd (bodyCell p q)) = y (snd q)" "pageNumber (snd (bodyCell p q)) = pageNumber (snd q)"
  "frame (snd q) (snd (bodyCell p q))"
  by (cases p; cases q; simp add: bodyCell_def frame_def)+

lemma cursor_separatorLine:
  "y (snd (separatorLine sy w q)) = y (snd q)" "pageNumber (snd (separatorLine sy w q)) = pageNumber (snd q)"
  "frame (snd q) (snd (separatorLine sy w q))"
  by (cases q; simp add: separatorLine_def frame_def)+

lemma cursor_bodyRow:
  "y (bodyRow p b) = y b + rowHeight" "pageNumber (bodyRow p b) = pageNumber b"
  "frame b (bodyRow p b)"
proof -
  obtain i row where p: "p = (i, row)" by (cases p)
  let ?b1 = "if i mod 2 \<noteq> 0
     then on_doc (doc_rect MARGIN (y b) (contentWidth b) rowHeight (Some ''F''))
            (on_doc (setFillColor (249, 250, 251)) b)
     else b"
  have b1: "y ?b1 = y b" "pageNumber ?b1 = pageNumber b" "frame b ?b1"
    by (simp_all add: frame_def)
  have k: "y (snd (fold bodyCell (enumerate 0 row) (MARGIN, ?b1))) = y (snd (MARGIN, ?b1)) \<and>
      pageNumber (snd (fold bodyCell (enumerate 0 row) (MARGIN, ?b1))) = pageNumber (snd (MARGIN, ?b1)) \<and>
      frame (snd (MARGIN, ?b1)) (snd (fold bodyCell (enumerate 0 row) (MARGIN, ?b1)))"
    by (rule fold_pair_keeps) (rule cursor_bodyCell)+
  have e: "bodyRow p b = (snd (fold bodyCell (enumerate 0 row) (MARGIN, ?b1)))\<lparr>y := y (snd (fold bodyCell (enumerate 0 row) (MARGIN, ?b1))) + rowHeight\<rparr>"
    by (simp add: p bodyRow_def)
  show "y (bodyRow p b) = y b + rowHeight" using k b1 by (simp add: e)
  show "pageNumber (bodyRow p b) = pageNumber b" using k b1 by (simp add: e)
  show "frame b (bodyRow p b)" using k b1 unfolding e by (simp add: frame_def)
qed

lemma cursor_fold_bodyRow:
  "y (fold bodyRow rows b) = y b + real (length rows) * rowHeight \<and>
   pageNumber (fold bodyRow rows b) = pageNumber b \<and> frame b (fold bodyRow rows b)"
proof (induction rows arbitrary: b)
  case Nil
  show ?case by simp
next
  case (Cons a rows)
  from Cons.IH [of "bodyRow a b"] cursor_bodyRow [where p = a and b = b] show ?case
    by (auto simp: algebra_simps intro: frame_trans)
qed

lemma cursor_addSummaryTable:
  "y (addSummaryTable cs b)
     = y (checkAndAddPage (real (length cs + 1) * rowHeight) b) + real (length cs + 1) * rowHeight + 5"
  "pageNumber (addSummaryTable cs b) = pageNumber (checkAndAddPage (real (length cs + 1) * rowHeight) b)"
  "frame b (addSummaryTable cs b)"
proof -
  let ?b1 = "checkAndAddPage (real (length cs + 1) * rowHeight) b"
  let ?b2 = "on_doc (doc_rect MARGIN (y ?b1) (contentWidth ?b1) rowHeight (Some ''F''))
     (on_doc (setFillColor (243, 244, 246)) (on_doc (setFontSize FONT_BODY)
       (on_doc (setFont ''helvetica'' ''bold'') ?b1)))"
  let ?b3 = "snd (fold headCell (enumerate 0 tableHead) (MARGIN, ?b2))"
  let ?b4 = "on_doc (setFont ''helvetica'' ''normal'') (?b3\<lparr>y := y ?b3 + rowHeight\<rparr>)"
  let ?b5 = "fold bodyRow (enumerate 0 (map tableRow cs)) ?b4"
  let ?b6 = "on_doc (doc_rect MARGIN (y b) (contentWidth ?b5) (y ?b5 - y b) None)
     (on_doc (setDrawColor (209, 213, 219)) ?b5)"
  let ?b7 = "snd (fold (separatorLine (y b)) (butlast colWidths) (MARGIN, ?b6))"
  have e: "addSummaryTable cs b = ?b7\<lparr>y := y ?b7 + 5\<rparr>"
    by (simp add: addSummaryTable_def Let_def)
  have b1: "frame b ?b1" by (rule frame_checkAndAddPage)
  have b2: "y ?b2 = y ?b1" "pageNumber ?b2 = pageNumber ?b1" "frame ?b1 ?b2"
    by (simp_all add: frame_def)
  have b3: "y ?b3 = y (snd (MARGIN, ?b2)) \<and> pageNumber ?b3 = pageNumber (snd (MARGIN, ?b2)) \<and>
      frame (snd (MARGIN, ?b2)) ?b3"
    by (rule fold_pair_keeps) (rule cursor_headCell)+
  have b4: "y ?b4 = y ?b3 + rowHeight" "pageNumber ?b4 = pageNumber ?b3" "frame ?b3 ?b4"
    by (simp_all add: frame_def)
  have b5: "y ?b5 = y ?b4 + real (length (enumerate 0 (map tableRow cs))) * rowHeight \<and>
      pageNumber ?b5 = pageNumber ?b4 \<and> frame ?b4 ?b5"
    by (rule cursor_fold_bodyRow)
  have b6: "y ?b6 = y ?b5" "pageNumber ?b6 = pageNumber ?b5" "frame ?b5 ?b6"
    by (simp_all add: frame_def)
  have b7: "y ?b7 = y (snd (MARGIN, ?b6)) \<and> pageNumber ?b7 = pageNumber (snd (MARGIN, ?b6)) \<and>
      frame (snd (MARGIN, ?b6)) ?b7"
    by (rule fold_pair_keeps) (rule cursor_separatorLine)+
  show "y (addSummaryTable cs b) = y ?b1 + real (length cs + 1) * rowHeight + 5"
    using b2(1) b3 b4(1) b5 b6(1) b7 unfolding e by (simp add: algebra_simps)
  show "pageNumber (addSummaryTable cs b) = pageNumber ?b1"
    using b2(2) b3 b4(2) b5 b6(2) b7 unfolding e by simp
  have "frame b ?b7"
    using b1 b2(3) b3 b4(3) b5 b6(3) b7 by (simp add: frame_def)
  then show "frame b (addSummaryTable cs b)"
    unfolding e by simp
qed

lemma frameD:
  assumes "frame b b'"
  shows "pageHeight b' = pageHeight b" "pageWidth b' = pageWidth b" "contentWidth b' = contentWidth b"
    "builder.more b' = builder.more b" "wrap (doc b') = wrap (doc b)"
  using assms by (simp_all add: frame_def)

lemmas geom_checkAndAddPage [simp] = frameD [OF frame_checkAndAddPage]
lemmas geom_addHeader [simp] = frameD [OF cursor_addHeader(3)]
lemmas geom_addSubheader [simp] = frameD [OF cursor_addSubheader(3)]
lemmas geom_addSectionTitle [simp] = frameD [OF cursor_addSectionTitle(3)]
lemmas geom_addSeparator [simp] = frameD [OF cursor_addSeparator(3)]
lemmas geom_addBodyText [simp] = frameD [OF frame_addBodyText]
lemmas geom_addBulletItem [simp] = frameD [OF cursor_addBulletItem(3)]
lemmas geom_addBulletList [simp] = frameD [OF frame_addBulletList]
lemmas geom_addScoreGrid [simp] = frameD [OF cursor_addScoreGrid(3)]
lemmas geom_addSummaryTable [simp] = frameD [OF cursor_addSummaryTable(3)]

lemma lineHeight_nonneg: "0 \<le> lineHeight n"
  by (simp add: lineHeight_def FONT_BODY_def LINE_HEIGHT_MULTIPLIER_def)

lemma band_after_check:
  assumes "MARGIN \<le> y b" "0 \<le> a" "a \<le> h" "a \<le> usable b"
  shows "MARGIN \<le> y (checkAndAddPage h b) + a \<and>
     y (checkAndAddPage h b) + a \<le> pageHeight b - MARGIN - FOOTER_HEIGHT"
  using assms by (auto simp: y_checkAndAddPage usable_def)

lemma inBand_addHeader: "MARGIN \<le> y b \<Longrightarrow> 14 \<le> usable b \<Longrightarrow> inBand (addHeader s b)"
  using band_after_check [where b = b and a = 14 and h = 20]
  by (simp add: inBand_def cursor_addHeader)

lemma inBand_addSubheader: "MARGIN \<le> y b \<Longrightarrow> 14.4 \<le> usable b \<Longrightarrow> inBand (addSubheader s b)"
  using band_after_check [where b = b and a = "14.4" and h = 15]
  by (simp add: inBand_def cursor_addSubheader)

lemma inBand_addSectionTitle: "MARGIN \<le> y b \<Longrightarrow> 8.4 \<le> usable b \<Longrightarrow> inBand (addSectionTitle s b)"
  using band_after_check [where b = b and a = "8.4" and h = 10]
  by (simp add: inBand_def cursor_addSectionTitle)

lemma inBand_addSeparator: "MARGIN \<le> y b \<Longrightarrow> 10 \<le> usable b \<Longrightarrow> inBand (addSeparator b)"
  using band_after_check [where b = b and a = 10 and h = 10]
  by (simp add: inBand_def cursor_addSeparator)

lemma inBand_addScoreGrid: "MARGIN \<le> y b \<Longrightarrow> 15 \<le> usable b \<Longrightarrow> inBand (addScoreGrid sc b)"
  using band_after_check [where b = b and a = 15 and h = 20]
  by (simp add: inBand_def cursor_addScoreGrid)

lemma inBand_addBodyText:
  assumes "MARGIN \<le> y b" "textHeight b s (contentWidth b) \<le> usable b"
  shows "inBand (addBodyText (Some s) opts b)"
proof -
  let ?h = "lineHeight (length (splitTextToSize (doc b) s (contentWidth b)))"
  have "?h \<le> usable b" using assms(2) by (simp add: textHeight_def)
  with assms(1) have "MARGIN \<le> y (checkAndAddPage ?h b) + ?h \<and>
      y (checkAndAddPage ?h b) + ?h \<le> pageHeight b - MARGIN - FOOTER_HEIGHT"
    by (intro band_after_check) (simp_all add: lineHeight_nonneg)
  then show ?thesis
    by (simp add: inBand_def cursor_addBodyText)
qed

lemma inBand_addBulletItem:
  assumes "MARGIN \<le> y b" "textHeight b s (contentWidth b - 5) \<le> usable b"
  shows "inBand (addBulletItem s b)"
proof -
  let ?h = "lineHeight (length (splitTextToSize (doc b) s (contentWidth b - 5)))"
  have "?h \<le> usable b" using assms(2) by (simp add: textHeight_def)
  with assms(1) have "MARGIN \<le> y (checkAndAddPage ?h b) + ?h \<and>
      y (checkAndAddPage ?h b) + ?h \<le> pageHeight b - MARGIN - FOOTER_HEIGHT"
    by (intro band_after_check) (simp_all add: lineHeight_nonneg)
  then show ?thesis
    by (simp add: inBand_def cursor_addBulletItem)
qed

lemma inBand_fold_addBulletItem:
  "MARGIN \<le> y b \<Longrightarrow> itemsFit (a # its) b \<Longrightarrow> inBand (fold addBulletItem (a # its) b)"
proof (induction its arbitrary: a b)
  case Nil
  then show ?case by (simp add: inBand_addBulletItem)
next
  case (Cons a' its)
  from Cons.prems have "inBand (addBulletItem a b)"
    by (simp add: inBand_addBulletItem)
  then have "MARGIN \<le> y (addBulletItem a b)"
    by (simp add: inBand_def)
  moreover from Cons.prems(2) have "itemsFit (a' # its) (addBulletItem a b)"
    by simp
  ultimately have "inBand (fold addBulletItem (a' # its) (addBulletItem a b))"
    by (rule Cons.IH)
  then show ?case by simp
qed

lemma inBand_addBulletList:
  assumes "MARGIN \<le> y b"
    "if its = [] then textHeight b ''None listed'' (contentWidth b) \<le> usable b else itemsFit its b"
  shows "inBand (addBulletList (Some its) b)"
proof (cases its)
  case Nil
  with assms show ?thesis by (simp add: addBulletList_def inBand_addBodyText)
next
  case (Cons a rest)
  with assms have "inBand (fold addBulletItem (a # rest) b)"
    by (intro inBand_fold_addBulletItem) simp_all
  with Cons show ?thesis by (simp add: addBulletList_def)
qed

lemma band_addSummaryTable:
  assumes "MARGIN \<le> y b" "real (length cs + 1) * rowHeight \<le> usable b"
  shows "MARGIN \<le> y (addSummaryTable cs b) \<and>
     y (addSummaryTable cs b) \<le> pageHeight b - MARGIN - FOOTER_HEIGHT + 5"
proof -
  let ?h = "real (length cs + 1) * rowHeight"
  have "0 \<le> ?h" by (simp add: rowHeight_def)
  with assms have "MARGIN \<le> y (checkAndAddPage ?h b) + ?h \<and>
      y (checkAndAddPage ?h b) + ?h \<le> pageHeight b - MARGIN - FOOTER_HEIGHT"
    by (intro band_after_check) simp_all
  then show ?thesis by (simp add: cursor_addSummaryTable)
qed

lemma y_addStyledSection:
  "y (addStyledSection title c b) = y (snd (snd (styledFirstPass title c b)))"
  by (simp add: addStyledSection_def Let_def split: prod.splits)

lemma styledFirstPass_contentEntry:
  "styledFirstPass title c b =
     (y (checkAndAddPage 15 b), y (contentEntry title b),
      (c (contentEntry title b))\<lparr>y := y (c (contentEntry title b)) + 5\<rparr>)"
  by (simp add: styledFirstPass_def contentEntry_def Let_def)

lemma frame_contentEntry: "frame b (contentEntry title b)"
proof -
  let ?b1 = "checkAndAddPage 15 b"
  have "frame b ?b1" by (rule frame_checkAndAddPage)
  then have "frame b (?b1\<lparr>y := y ?b1 + 5\<rparr>)" by (simp add: frame_def)
  then have "frame b (addSectionTitle title (?b1\<lparr>y := y ?b1 + 5\<rparr>))"
    using cursor_addSectionTitle(3) by (rule frame_trans)
  then show ?thesis by (simp add: contentEntry_def Let_def frame_def)
qed

lemma y_contentEntry: "MARGIN \<le> y b \<Longrightarrow> MARGIN \<le> y (contentEntry title b)"
  by (simp add: contentEntry_def Let_def cursor_addSectionTitle y_checkAndAddPage MARGIN_def)

lemma y_addStyledSection_contentEntry:
  "y (addStyledSection title c b) = y (c (contentEntry title b)) + 5"
  by (simp add: y_addStyledSection styledFirstPass_contentEntry)

lemma advances_refl [simp]: "advances b b"
  by (simp add: advances_def)

lemma advances_trans: "advances a b \<Longrightarrow> advances b c \<Longrightarrow> advances a c"
  by (auto simp: advances_def)

lemma advances_checkAndAddPage: "advances b (checkAndAddPage h b)"
  by (simp add: advances_def y_checkAndAddPage pageNumber_checkAndAddPage)

lemma advances_after:
  "advances b b1 \<Longrightarrow> pageNumber b2 = pageNumber b1 \<Longrightarrow> y b1 \<le> y b2 \<Longrightarrow> advances b b2"
  by (auto simp: advances_def)

lemma advances_addHeader: "advances b (addHeader s b)"
  by (rule advances_after [OF advances_checkAndAddPage [of b 20]]) (simp_all add: cursor_addHeader)

lemma advances_addSubheader: "advances b (addSubheader s b)"
  by (rule advances_after [OF advances_checkAndAddPage [of b 15]]) (simp_all add: cursor_addSubheader)

lemma advances_addSectionTitle: "advances b (addSectionTitle s b)"
  by (rule advances_after [OF advances_checkAndAddPage [of b 10]]) (simp_all add: cursor_addSectionTitle)

lemma advances_addSeparator: "advances b (addSeparator b)"
  by (rule advances_after [OF advances_checkAndAddPage [of b 10]]) (simp_all add: cursor_addSeparator)

lemma advances_addScoreGrid: "advances b (addScoreGrid sc b)"
  by (rule advances_after [OF advances_checkAndAddPage [of b 20]]) (simp_all add: cursor_addScoreGrid)

lemma advances_addBodyText: "advances b (addBodyText t opts b)"
proof (cases t)
  case None
  then show ?thesis by (simp add: addBodyText_def)
next
  case (Some s)
  let ?h = "lineHeight (length (splitTextToSize (doc b) s (contentWidth b)))"
  have "advances b (addBodyText (Some s) opts b)"
    by (rule advances_after [OF advances_checkAndAddPage [of b ?h]])
      (simp_all add: cursor_addBodyText lineHeight_nonneg)
  with Some show ?thesis by simp
qed

lemma advances_addBulletItem: "advances b (addBulletItem s b)"
  by (rule advances_after [OF advances_checkAndAddPage
        [of b "lineHeight (length (splitTextToSize (doc b) s (contentWidth b - 5)))"]])
    (simp_all add: cursor_addBulletItem lineHeight_nonneg)

lemma advances_fold: "(\<And>x s. advances s (f x s)) \<Longrightarrow> advances b (fold f xs b)"
proof (induction xs arbitrary: b)
  case Nil
  show ?case by simp
next
  case (Cons a xs)
  have "advances b (f a b)" by (rule Cons.prems)
  moreover have "advances (f a b) (fold f xs (f a b))" by (rule Cons.IH) (rule Cons.prems)
  ultimately show ?case by (auto intro: advances_trans)
qed

lemma advances_addBulletList: "advances b (addBulletList its b)"
  by (auto simp: addBulletList_def advances_addBodyText advances_addBulletItem
      intro!: advances_fold split: option.splits)

lemma advances_addSummaryTable: "advances b (addSummaryTable cs b)"
  by (rule advances_after [OF advances_checkAndAddPage [of b "real (length cs + 1) * rowHeight"]])
    (simp_all add: cursor_addSummaryTable rowHeight_def)

lemma advances_addStyledSection:
  assumes c: "\<forall>s. advances s (c s)"
  shows "advances b (addStyledSection title c b)"
proof -
  let ?b1 = "checkAndAddPage 15 b"
  let ?b2 = "?b1\<lparr>y := y ?b1 + 5\<rparr>"
  let ?b3 = "addSectionTitle title ?b2"
  let ?b4 = "?b3\<lparr>y := y ?b3 + 2\<rparr>"
  let ?b6 = "(c ?b4)\<lparr>y := y (c ?b4) + 5\<rparr>"
  have p: "styledFirstPass title c b = (y ?b1, y ?b4, ?b6)"
    by (simp add: styledFirstPass_def Let_def)
  have "advances b ?b1" by (rule advances_checkAndAddPage)
  then have "advances b ?b2" by (rule advances_after) simp_all
  then have "advances b ?b3" using advances_addSectionTitle [of ?b2 title] by (rule advances_trans)
  then have "advances b ?b4" by (rule advances_after) simp_all
  then have "advances b (c ?b4)" using c by (blast intro: advances_trans)
  then have a6: "advances b ?b6" by (rule advances_after) simp_all
  have second: "pageNumber s \<le> pageNumber (c (addSectionTitle title (s\<lparr>y := v\<rparr>)\<lparr>y := w\<rparr>))" for s v w
  proof -
    have "pageNumber s \<le> pageNumber (addSectionTitle title (s\<lparr>y := v\<rparr>))"
      using advances_addSectionTitle [of "s\<lparr>y := v\<rparr>" title] by (simp add: advances_def)
    moreover have "pageNumber (addSectionTitle title (s\<lparr>y := v\<rparr>)\<lparr>y := w\<rparr>)
        \<le> pageNumber (c (addSectionTitle title (s\<lparr>y := v\<rparr>)\<lparr>y := w\<rparr>))"
      using c [rule_format, of "addSectionTitle title (s\<lparr>y := v\<rparr>)\<lparr>y := w\<rparr>"]
      by (simp add: advances_def)
    ultimately show ?thesis by simp
  qed
  have pn: "pageNumber ?b6 \<le> pageNumber (addStyledSection title c b)"
    using second [of ?b6] second [of "on_doc f (on_doc g ?b6)" for f g]
    by (simp add: addStyledSection_def p Let_def)
  have yy: "y (addStyledSection title c b) = y ?b6"
    by (simp add: y_addStyledSection p)
  from a6 pn yy show ?thesis
    by (auto simp: advances_def)
qed

lemma more_counted:
  "builder.more (c s) = builder.more s \<Longrightarrow> builder.more (counted c s) = Suc (builder.more s)"
  by (simp add: counted_def)

lemma more_addStyledSection_counted:
  assumes "\<forall>s. builder.more (c s) = builder.more s"
  shows "builder.more (addStyledSection title (counted c) b) = builder.more b + 2"
  using assms by (simp add: addStyledSection_def styledFirstPass_def Let_def more_counted)

lemma A4_doc [simp]: "wrap (doc A4) = wrapLines" "gs (doc A4) = \<lparr>font_name = ''helvetica'', font_style = ''normal'', font_size = 8,
        text_color = (150, 150, 150), fill_color = (0, 0, 0),
        draw_color = (0, 0, 0)\<rparr>"
  by (simp_all add: A4_def PdfBuilder_new_def addPage_def addPageHeader_def new_jsPDF_def FONT_SMALL_def
     setFont_def setFontSize_def setTextColor_def doc_text_def doc_line_def paint_on_def)

text \<open>
  C4. Whatever the content procedure (as long as it leaves the counter in the extension
  alone), a styled section invokes it exactly twice, in either branch; and whatever the
  content procedure, the offset after the styled section is the \<open>endY\<close> recorded at the
  end of the first pass.
\<close>

theorem addStyledSection_two_passes:
  "((\<forall>s. builder.more (c s) = builder.more s) \<longrightarrow>
      builder.more (addStyledSection title (counted c) b) = builder.more b + 2) \<and>
   y (addStyledSection title' c' b') = y (snd (snd (styledFirstPass title' c' b')))"
  by (simp add: more_addStyledSection_counted y_addStyledSection)

lemma A4_extend [simp]:
  "y (builder.extend A4 e) = 15" "pageHeight (builder.extend A4 e) = 297"
  "pageNumber (builder.extend A4 e) = 1" "builder.more (builder.extend A4 e) = e"
  "contentWidth (builder.extend A4 e) = 180" "pageWidth (builder.extend A4 e) = 210"
  by (simp_all add: builder.defs A4_fields)

theorem addStyledSection_two_passes_witness:
  "spansPageBreak 15 335.4 297 \<and>
   builder.more (addStyledSection ''Bias'' (counted (jump 300)) (builder.extend A4 0)) = 2 \<and>
   y (addStyledSection ''Bias'' (counted (jump 300)) (builder.extend A4 0)) = 335.4 \<and>
   \<not> spansPageBreak 15 55.4 297 \<and>
   builder.more (addStyledSection ''Bias'' (counted (jump 20)) (builder.extend A4 0)) = 2 \<and>
   y (addStyledSection ''Bias'' (counted (jump 20)) (builder.extend A4 0)) = 55.4"
proof -
  have j: "\<forall>s. builder.more (jump d s) = builder.more s" for d :: real
    by (simp add: jump_def)
  have f: "y (snd (snd (styledFirstPass ''Bias'' (counted (jump d)) (builder.extend A4 0)))) = 35.4 + d" for d
    by (simp add: styledFirstPass_def Let_def counted_def jump_def y_checkAndAddPage
        cursor_addSectionTitle MARGIN_def FOOTER_HEIGHT_def)
  have s: "spansPageBreak 15 335.4 297 \<and> \<not> spansPageBreak 15 55.4 297"
    by (simp add: spansPageBreak_def)
  let ?A = "builder.extend A4 (0::nat)"
  note t300 = addStyledSection_two_passes [of "jump 300" "''Bias''" ?A "''Bias''" "counted (jump 300)" ?A]
  note t20 = addStyledSection_two_passes [of "jump 20" "''Bias''" ?A "''Bias''" "counted (jump 20)" ?A]
  from t300 j have "builder.more (addStyledSection ''Bias'' (counted (jump 300)) ?A)
      = builder.more ?A + 2"
    by blast
  moreover from t20 j have "builder.more (addStyledSection ''Bias'' (counted (jump 20)) ?A)
      = builder.more ?A + 2"
    by blast
  moreover from t300 f have "y (addStyledSection ''Bias'' (counted (jump 300)) ?A) = 335.4"
    by simp
  moreover from t20 f have "y (addStyledSection ''Bias'' (counted (jump 20)) ?A) = 55.4"
    by simp
  ultimately show ?thesis using s by simp
qed

lemma length_exampleRanked [simp]: "length (exampleRanked n) = n"
  by (simp add: exampleRanked_def)

lemma A4_usable [simp]: "usable A4 = 257"
  by (simp add: usable_def A4_fields MARGIN_def FOOTER_HEIGHT_def)

lemma textHeight_wrapLines:
  "wrap (doc b) = wrapLines \<Longrightarrow> textHeight b s w = 5.29167"
  by (simp add: textHeight_def splitTextToSize_def wrapLines_def lineHeight_def FONT_BODY_def
      LINE_HEIGHT_MULTIPLIER_def)

lemma itemsFit_wrapLines:
  "wrap (doc b) = wrapLines \<Longrightarrow> 5.29167 \<le> usable b \<Longrightarrow> itemsFit its b"
proof (induction its arbitrary: b)
  case Nil
  show ?case by simp
next
  case (Cons a its)
  have f: "frame b (addBulletItem a b)" by (rule cursor_addBulletItem)
  then have "wrap (doc (addBulletItem a b)) = wrapLines" "usable (addBulletItem a b) = usable b"
    using Cons.prems(1) by (simp_all add: frame_def usable_def)
  with Cons.prems(2) have "itemsFit its (addBulletItem a b)"
    by (intro Cons.IH) simp_all
  with Cons.prems show ?case by (simp add: textHeight_wrapLines)
qed

text \<open>
  C5 (as amended). On entry the offset is at least the margin. Then after a heading, a
  subheading, a section title, a score grid or a separator the offset lies in the band from
  the margin to \<open>pageHeight - MARGIN - FOOTER_HEIGHT\<close>, provided a page offers a usable
  height of 15. After a body text it does, provided the text as the renderer wraps it is no
  taller than the usable height of a page; after a bullet list it does, provided each item
  as the loop wraps it (for an empty or absent list, the text "None listed") is no taller
  than that. After the summary table, whose rows fit the usable height of a page, it lies in
  the band widened by the trailing gap of 5, which no capacity check covers. A styled
  section invokes its content at the builder \<open>contentEntry\<close>, whose offset is at least the
  margin, and ends exactly 5 below the offset at which the content left the cursor in the
  first pass: so after a styled section the offset lies in the band widened by 5 whenever
  the content, invoked at that one builder, leaves the offset in the band.
\<close>

theorem renderers_rest_in_band:
  "(MARGIN \<le> y b \<and> 15 \<le> usable b \<longrightarrow>
      inBand (addHeader s b) \<and> inBand (addSubheader s b) \<and> inBand (addSectionTitle s b) \<and>
      inBand (addScoreGrid sc b) \<and> inBand (addSeparator b)) \<and>
   (MARGIN \<le> y b \<and> textHeight b s (contentWidth b) \<le> usable b \<longrightarrow>
      inBand (addBodyText (Some s) opts b)) \<and>
   (MARGIN \<le> y b \<and>
      (if its = [] then textHeight b ''None listed'' (contentWidth b) \<le> usable b
       else itemsFit its b) \<longrightarrow>
      inBand (addBulletList (Some its) b)) \<and>
   (MARGIN \<le> y b \<and> textHeight b ''None listed'' (contentWidth b) \<le> usable b \<longrightarrow>
      inBand (addBulletList None b)) \<and>
   (MARGIN \<le> y b \<and> real (length cs + 1) * rowHeight \<le> usable b \<longrightarrow>
      MARGIN \<le> y (addSummaryTable cs b) \<and>
      y (addSummaryTable cs b) \<le> pageHeight b - MARGIN - FOOTER_HEIGHT + 5) \<and>
   styledFirstPass title c b =
     (y (checkAndAddPage 15 b), y (contentEntry title b),
      (c (contentEntry title b))\<lparr>y := y (c (contentEntry title b)) + 5\<rparr>) \<and>
   frame b (contentEntry title b) \<and>
   (MARGIN \<le> y b \<longrightarrow> MARGIN \<le> y (contentEntry title b)) \<and>
   y (addStyledSection title c b) = y (c (contentEntry title b)) + 5 \<and>
   (MARGIN \<le> y (c (contentEntry title b)) \<and>
      y (c (contentEntry title b)) \<le> pageHeight b - MARGIN - FOOTER_HEIGHT \<longrightarrow>
      MARGIN \<le> y (addStyledSection title c b) \<and>
      y (addStyledSection title c b) \<le> pageHeight b - MARGIN - FOOTER_HEIGHT + 5)"
proof (intro conjI impI)
  assume "MARGIN \<le> y b \<and> 15 \<le> usable b"
  then show "inBand (addHeader s b)" "inBand (addSubheader s b)" "inBand (addSectionTitle s b)"
    "inBand (addScoreGrid sc b)" "inBand (addSeparator b)"
    by (simp_all add: inBand_addHeader inBand_addSubheader inBand_addSectionTitle
        inBand_addScoreGrid inBand_addSeparator)
next
  assume "MARGIN \<le> y b \<and> textHeight b s (contentWidth b) \<le> usable b"
  then show "inBand (addBodyText (Some s) opts b)"
    by (simp add: inBand_addBodyText)
next
  assume "MARGIN \<le> y b \<and>
    (if its = [] then textHeight b ''None listed'' (contentWidth b) \<le> usable b
     else itemsFit its b)"
  then show "inBand (addBulletList (Some its) b)"
    by (intro inBand_addBulletList) simp_all
next
  assume "MARGIN \<le> y b \<and> textHeight b ''None listed'' (contentWidth b) \<le> usable b"
  then show "inBand (addBulletList None b)"
    by (simp add: addBulletList_def inBand_addBodyText)
next
  assume a: "MARGIN \<le> y b \<and> real (length cs + 1) * rowHeight \<le> usable b"
  then show "MARGIN \<le> y (addSummaryTable cs b)"
    "y (addSummaryTable cs b) \<le> pageHeight b - MARGIN - FOOTER_HEIGHT + 5"
    using band_addSummaryTable [of b cs] by simp_all
next
  show "styledFirstPass title c b =
     (y (checkAndAddPage 15 b), y (contentEntry title b),
      (c (contentEntry title b))\<lparr>y := y (c (contentEntry title b)) + 5\<rparr>)"
    by (rule styledFirstPass_contentEntry)
next
  show "frame b (contentEntry title b)" by (rule frame_contentEntry)
next
  assume "MARGIN \<le> y b"
  then show "MARGIN \<le> y (contentEntry title b)" by (rule y_contentEntry)
next
  show "y (addStyledSection title c b) = y (c (contentEntry title b)) + 5"
    by (rule y_addStyledSection_contentEntry)
next
  assume a: "MARGIN \<le> y (c (contentEntry title b)) \<and>
    y (c (contentEntry title b)) \<le> pageHeight b - MARGIN - FOOTER_HEIGHT"
  then show "MARGIN \<le> y (addStyledSection title c b)"
    "y (addStyledSection title c b) \<le> pageHeight b - MARGIN - FOOTER_HEIGHT + 5"
    by (simp_all add: y_addStyledSection_contentEntry)
qed

text \<open>
  On a fresh A4 builder whose backend leaves every text on one line: the block renderers,
  a list of two items, an empty and an absent list, a table of three rows, and the two
  styled sections of the report with the content procedures of \<open>generatePdf\<close> (a
  recommendation; a bias analysis without flags and one with two flags). Each content is
  invoked at offset 30.4 and leaves the cursor in the band.
\<close>

theorem renderers_rest_in_band_witness:
  "inBand (addHeader ''Report'' A4) \<and> inBand (addSubheader ''Report'' A4) \<and>
   inBand (addSectionTitle ''Report'' A4) \<and>
   inBand (addScoreGrid (spec_scores (exampleCandidate None)) A4) \<and> inBand (addSeparator A4) \<and>
   inBand (addBodyText (Some ''Report'') no_options A4) \<and>
   inBand (addBulletList (Some [''one'', ''two'']) A4) \<and>
   inBand (addBulletList (Some []) A4) \<and> inBand (addBulletList None A4) \<and>
   y (addSummaryTable (exampleRanked 3) A4) = 52 \<and>
   y (contentEntry ''Final Recommendation'' A4) = 30.4 \<and>
   y (renderRecommendation (exampleResult 1 0) (contentEntry ''Final Recommendation'' A4))
     = 40.98334 \<and>
   y (addStyledSection ''Final Recommendation'' (renderRecommendation (exampleResult 1 0)) A4)
     = 45.98334 \<and>
   y (addStyledSection ''Bias Analysis Report'' (renderBiasAnalysis (exampleResult 1 0)) A4)
     = 40.69167 \<and>
   y (addStyledSection ''Bias Analysis Report'' (renderBiasAnalysis (exampleResult 1 2)) A4)
     = 60.56668"
proof -
  let ?rec = "renderRecommendation (exampleResult 1 0) :: builder \<Rightarrow> builder"
  let ?bias0 = "renderBiasAnalysis (exampleResult 1 0) :: builder \<Rightarrow> builder"
  let ?bias2 = "renderBiasAnalysis (exampleResult 1 2) :: builder \<Rightarrow> builder"
  let ?eR = "contentEntry ''Final Recommendation'' A4"
  let ?eB = "contentEntry ''Bias Analysis Report'' A4"
  note nums = A4_fields MARGIN_def FOOTER_HEIGHT_def
  have m: "MARGIN \<le> y A4" by (simp add: nums)
  have h: "lineHeight (Suc 0) = 529167 / 100000"
    by (simp add: lineHeight_def FONT_BODY_def LINE_HEIGHT_MULTIPLIER_def)
  have th: "textHeight A4 t w = 5.29167" for t w
    by (rule textHeight_wrapLines) simp
  have fit: "itemsFit [''one'', ''two''] A4"
    by (rule itemsFit_wrapLines) simp_all
  have e: "y (contentEntry title A4) = 30.4" "pageHeight (contentEntry title A4) = 297"
    "contentWidth (contentEntry title A4) = 180" "wrap (doc (contentEntry title A4)) = wrapLines"
    for title
    by (simp_all add: contentEntry_def Let_def cursor_addSectionTitle y_checkAndAddPage nums)
  have cR: "y (?rec ?eR) = 40.98334"
    by (simp add: renderRecommendation_def exampleResult_def cursor_addBodyText
        y_checkAndAddPage splitTextToSize_def wrapLines_def h e nums)
  have cB0: "y (?bias0 ?eB) = 35.69167"
    by (simp add: renderBiasAnalysis_def exampleResult_def cursor_addBodyText
        y_checkAndAddPage splitTextToSize_def wrapLines_def h e nums)
  have cB2: "y (?bias2 ?eB) = 55.56668"
    by (simp add: renderBiasAnalysis_def renderBiasFlag_def exampleResult_def addBulletList_def
        cursor_addBodyText cursor_addBulletItem y_checkAndAddPage splitTextToSize_def
        wrapLines_def h e nums numeral_2_eq_2)
  note t = renderers_rest_in_band [of A4 "''Report''" "spec_scores (exampleCandidate None)"
      no_options "[''one'', ''two'']" "exampleRanked 3"]
  note tE = renderers_rest_in_band [of A4 "''Report''" "spec_scores (exampleCandidate None)"
      no_options "[]" "exampleRanked 3"]
  note tR = renderers_rest_in_band [of A4 "''Report''" "spec_scores (exampleCandidate None)"
      no_options "[]" "exampleRanked 3" "''Final Recommendation''" ?rec]
  note tB0 = renderers_rest_in_band [of A4 "''Report''" "spec_scores (exampleCandidate None)"
      no_options "[]" "exampleRanked 3" "''Bias Analysis Report''" ?bias0]
  note tB2 = renderers_rest_in_band [of A4 "''Report''" "spec_scores (exampleCandidate None)"
      no_options "[]" "exampleRanked 3" "''Bias Analysis Report''" ?bias2]
  have t1: "inBand (addHeader ''Report'' A4) \<and> inBand (addSubheader ''Report'' A4) \<and>
      inBand (addSectionTitle ''Report'' A4) \<and>
      inBand (addScoreGrid (spec_scores (exampleCandidate None)) A4) \<and> inBand (addSeparator A4)"
    using t m by simp
  have t2: "inBand (addBodyText (Some ''Report'') no_options A4)"
    using t m by (simp add: th)
  have t3: "inBand (addBulletList (Some [''one'', ''two'']) A4)"
    using t m fit by simp
  have t3': "inBand (addBulletList (Some []) A4) \<and> inBand (addBulletList None A4)"
    using tE m by (simp add: th)
  have t4: "MARGIN \<le> y (addSummaryTable (exampleRanked 3) A4) \<and>
      y (addSummaryTable (exampleRanked 3) A4) \<le> pageHeight A4 - MARGIN - FOOTER_HEIGHT + 5"
    using t m by (simp add: rowHeight_def)
  have v4: "y (addSummaryTable (exampleRanked 3) A4) = 52"
    by (simp add: cursor_addSummaryTable y_checkAndAddPage A4_fields rowHeight_def MARGIN_def
        FOOTER_HEIGHT_def)
  have bR: "MARGIN \<le> y (?rec ?eR) \<and> y (?rec ?eR) \<le> pageHeight A4 - MARGIN - FOOTER_HEIGHT"
    unfolding cR by (simp add: nums)
  have bB0: "MARGIN \<le> y (?bias0 ?eB) \<and> y (?bias0 ?eB) \<le> pageHeight A4 - MARGIN - FOOTER_HEIGHT"
    unfolding cB0 by (simp add: nums)
  have bB2: "MARGIN \<le> y (?bias2 ?eB) \<and> y (?bias2 ?eB) \<le> pageHeight A4 - MARGIN - FOOTER_HEIGHT"
    unfolding cB2 by (simp add: nums)
  from tR bR have sR: "y (addStyledSection ''Final Recommendation'' ?rec A4) = y (?rec ?eR) + 5 \<and>
      y (addStyledSection ''Final Recommendation'' ?rec A4) \<le> pageHeight A4 - MARGIN - FOOTER_HEIGHT + 5"
    by blast
  from tB0 bB0 have sB0: "y (addStyledSection ''Bias Analysis Report'' ?bias0 A4) = y (?bias0 ?eB) + 5 \<and>
      y (addStyledSection ''Bias Analysis Report'' ?bias0 A4) \<le> pageHeight A4 - MARGIN - FOOTER_HEIGHT + 5"
    by blast
  from tB2 bB2 have sB2: "y (addStyledSection ''Bias Analysis Report'' ?bias2 A4) = y (?bias2 ?eB) + 5 \<and>
      y (addStyledSection ''Bias Analysis Report'' ?bias2 A4) \<le> pageHeight A4 - MARGIN - FOOTER_HEIGHT + 5"
    by blast
  from t1 t2 t3 t3' t4 v4 sR sB0 sB2 cR cB0 cB2 e(1) [of "''Final Recommendation''"]
  show ?thesis by simp
qed

text \<open>
  The claim C5 as stated fails: three rows at offset 240 of an A4 page pass the capacity
  check of the table (240 + 32 is not above 272), and the table leaves the offset at 277,
  below the band.
\<close>

theorem addSummaryTable_leaves_band:
  "inBand (A4\<lparr>y := 240\<rparr>) \<and> y (addSummaryTable (exampleRanked 3) (A4\<lparr>y := 240\<rparr>)) = 277 \<and>
   \<not> inBand (addSummaryTable (exampleRanked 3) (A4\<lparr>y := 240\<rparr>))"
  by (simp add: inBand_def cursor_addSummaryTable y_checkAndAddPage A4_fields rowHeight_def
      MARGIN_def FOOTER_HEIGHT_def)

text \<open>
  C6 (as amended). The capacity check and every block renderer but the styled section
  either begin a page or leave the offset where it was or further down; so does a styled
  section as a whole, when its content procedure does.
\<close>

theorem renderers_advance:
  "advances b (checkAndAddPage h b) \<and> advances b (addHeader s b) \<and>
   advances b (addSubheader s b) \<and> advances b (addSectionTitle s b) \<and>
   advances b (addBodyText txt opts b) \<and> advances b (addBulletList items b) \<and>
   advances b (addScoreGrid sc b) \<and> advances b (addSummaryTable cs b) \<and>
   advances b (addSeparator b) \<and>
   ((\<forall>st. advances st (c st)) \<longrightarrow> advances b (addStyledSection title c b))"
  by (simp add: advances_checkAndAddPage advances_addHeader advances_addSubheader
      advances_addSectionTitle advances_addBodyText advances_addBulletList
      advances_addScoreGrid advances_addSummaryTable advances_addSeparator
      advances_addStyledSection)

theorem renderers_advance_witness:
  "advances A4 (checkAndAddPage 300 A4) \<and> advances A4 (addHeader ''Report'' A4) \<and>
   advances A4 (addSubheader ''Report'' A4) \<and> advances A4 (addSectionTitle ''Report'' A4) \<and>
   advances A4 (addBodyText (Some ''Report'') no_options A4) \<and>
   advances A4 (addBulletList (Some [''one'', ''two'']) A4) \<and>
   advances A4 (addScoreGrid (spec_scores (exampleCandidate None)) A4) \<and>
   advances A4 (addSummaryTable (exampleRanked 3) A4) \<and> advances A4 (addSeparator A4) \<and>
   advances A4 (addStyledSection ''Bias'' (addBodyText (Some ''none'') no_options) A4) \<and>
   y (addStyledSection ''Bias'' (addBodyText (Some ''none'') no_options) A4) = 40.69167 \<and>
   pageNumber (checkAndAddPage 300 A4) = 2"
proof -
  have c: "\<forall>st::builder. advances st (addBodyText (Some ''none'') no_options st)"
    by (simp add: advances_addBodyText)
  note t = renderers_advance [of A4 300 "''Report''" "Some ''Report''" no_options
      "Some [''one'', ''two'']" "spec_scores (exampleCandidate None)" "exampleRanked 3"
      "addBodyText (Some ''none'') no_options" "''Bias''"]
  from t c have s: "advances A4 (addStyledSection ''Bias'' (addBodyText (Some ''none'') no_options) A4)"
    by blast
  have v: "y (addStyledSection ''Bias'' (addBodyText (Some ''none'') no_options) A4) = 40.69167"
    by (simp add: y_addStyledSection styledFirstPass_def Let_def cursor_addBodyText
        cursor_addSectionTitle y_checkAndAddPage A4_fields MARGIN_def FOOTER_HEIGHT_def
        splitTextToSize_def wrapLines_def lineHeight_def FONT_BODY_def LINE_HEIGHT_MULTIPLIER_def)
  have p: "pageNumber (checkAndAddPage 300 A4) = 2"
    by (simp add: pageNumber_checkAndAddPage A4_fields MARGIN_def FOOTER_HEIGHT_def)
  from t s v p show ?thesis by simp
qed

text \<open>
  The claim C6 as stated fails inside the styled section. The probe is a content procedure
  that moves the cursor 20 down and records the cursor as it finds and as it leaves it.
  On one and the same page the first pass leaves the offset at 50.4, and the redraw pass
  starts the content at 33.8: \<open>addStyledSection\<close> has set the offset back to
  \<open>contentStartY - 7\<close>, and no page has begun in between.
\<close>

theorem addStyledSection_rewinds:
  "builder.more (addStyledSection ''Bias'' (probe 20) (builder.extend A4 []))
     = [(1, 30.4), (1, 50.4), (1, 33.8), (1, 53.8)] \<and>
   \<not> sorted_wrt cursorStep
       (builder.more (addStyledSection ''Bias'' (probe 20) (builder.extend A4 [])))"
proof -
  have l: "builder.more (addStyledSection ''Bias'' (probe 20) (builder.extend A4 []))
      = [(1, 30.4), (1, 50.4), (1, 33.8), (1, 53.8)]"
    by (simp add: addStyledSection_def styledFirstPass_def Let_def probe_def spansPageBreak_def
        cursor_addSectionTitle y_checkAndAddPage pageNumber_checkAndAddPage MARGIN_def
        FOOTER_HEIGHT_def)
  show ?thesis
    unfolding l by (simp add: cursorStep_def)
qed

lemma footerGs_idem [simp]: "footerGs (footerGs g) = footerGs g"
  by (simp add: footerGs_def)

lemma addFooter_effect:
  assumes "0 < i" "i \<le> length (pages (doc b))"
  shows "pages (doc (addFooter (length (pages (doc b))) i b))
       = (pages (doc b))[i - 1 := pages (doc b) ! (i - 1) @ footerOf b i]"
  using assms
  by (simp_all add: addFooter_def Let_def footerOf_def footerGs_def footerText_def setPage_def
      setFont_def setFontSize_def setTextColor_def doc_line_def doc_text_def paint_on_def
      FONT_SMALL_def)

lemma addFooter_frame:
  "gs (doc (addFooter n i b)) = footerGs (gs (doc b))"
  "pageHeight (addFooter n i b) = pageHeight b" "pageWidth (addFooter n i b) = pageWidth b"
  by (simp_all add: addFooter_def Let_def footerGs_def setPage_def
      setFont_def setFontSize_def setTextColor_def doc_line_def doc_text_def paint_on_def
      FONT_SMALL_def)

lemma footerOf_cong:
  "gs (doc b') = footerGs (gs (doc b)) \<Longrightarrow> pageHeight b' = pageHeight b \<Longrightarrow>
   pageWidth b' = pageWidth b \<Longrightarrow> length (pages (doc b')) = length (pages (doc b)) \<Longrightarrow>
   footerOf b' i = footerOf b i"
  by (simp add: footerOf_def)

lemma footerLoop_pages:
  "length (pages (doc b)) = N \<Longrightarrow> j \<le> N \<Longrightarrow>
   pages (doc (footerLoop (Suc j) N b))
     = take j (pages (doc b))
       @ map (\<lambda>(i, p). p @ footerOf b i) (enumerate (Suc j) (drop j (pages (doc b))))"
proof (induction k \<equiv> "N - j" arbitrary: j b)
  case 0
  then have "j = N" by simp
  with "0.prems" show ?case by (subst footerLoop.simps) simp
next
  case (Suc k)
  let ?ps = "pages (doc b)"
  let ?b' = "addFooter N (Suc j) b"
  from Suc have j: "j < N" by simp
  with Suc.prems have jl: "j < length ?ps" by simp
  have ps': "pages (doc ?b') = ?ps[j := ?ps ! j @ footerOf b (Suc j)]"
    using addFooter_effect [of "Suc j" b] jl Suc.prems(1) by simp
  then have len: "length (pages (doc ?b')) = N"
    using Suc.prems(1) by simp
  have fo: "footerOf ?b' i = footerOf b i" for i
    using len Suc.prems(1) by (intro footerOf_cong) (simp_all add: addFooter_frame)
  have "pages (doc (footerLoop (Suc j) N b)) = pages (doc (footerLoop (Suc (Suc j)) N ?b'))"
    using j by (subst footerLoop.simps) simp
  also have "\<dots> = take (Suc j) (pages (doc ?b'))
      @ map (\<lambda>(i, p). p @ footerOf ?b' i) (enumerate (Suc (Suc j)) (drop (Suc j) (pages (doc ?b'))))"
    using Suc.hyps(2) j len by (intro Suc.hyps(1)) simp_all
  also have "\<dots> = take j ?ps @ [?ps ! j @ footerOf b (Suc j)]
      @ map (\<lambda>(i, p). p @ footerOf b i) (enumerate (Suc (Suc j)) (drop (Suc j) ?ps))"
    using jl by (simp add: ps' fo take_Suc_conv_app_nth)
  also have "\<dots> = take j ?ps @ map (\<lambda>(i, p). p @ footerOf b i) (enumerate (Suc j) (drop j ?ps))"
    using jl by (simp add: Cons_nth_drop_Suc [symmetric])
  finally show ?case .
qed

text \<open>
  C7. On a document of N pages the footer finalizer leaves N pages, and page \<open>i\<close> (from 1
  to N) holds what it held before, followed by its footer and nothing else: the rule line
  and the text "Page i of N".
\<close>

theorem finalizeAndAddFooters_stamps_every_page:
  "pages (doc (finalizeAndAddFooters b))
     = map (\<lambda>(i, p). p @ footerOf b i) (enumerate 1 (pages (doc b)))"
  using footerLoop_pages [of b "length (pages (doc b))" 0]
  by (simp add: finalizeAndAddFooters_def getNumberOfPages_def)

theorem finalizeAndAddFooters_stamps_every_page_witness:
  "map (\<lambda>p. map snd (drop 2 p)) (pages (doc (finalizeAndAddFooters (addPage A4))))
   = [[Line 15 287 195 287, Text [''Page 1 of 2''] 105 293 (Some ''center'') None],
      [Line 15 287 195 287, Text [''Page 2 of 2''] 105 293 (Some ''center'') None]]"
  unfolding finalizeAndAddFooters_stamps_every_page
  by (simp add: footerOf_def A4_def PdfBuilder_new_def addPage_def addPageHeader_def
      new_jsPDF_def on_doc_def doc_addPage_def setFont_def setFontSize_def setTextColor_def
      doc_text_def doc_line_def paint_on_def MARGIN_def FOOTER_HEIGHT_def enumerate_eq_zip
      digit_char_def)

lemma validPage_checkAndAddPage: "validPage b \<Longrightarrow> validPage (checkAndAddPage h b)"
  by (simp add: validPage_def checkAndAddPage_def addPage_def addPageHeader_def
      doc_addPage_def setFont_def setFontSize_def setTextColor_def doc_text_def doc_line_def
      paint_on_def nth_append)

lemma addBodyText_paints:
  assumes "validPage b"
  shows "pages (doc (addBodyText (Some s) \<lparr>fontStyle = Some ''italic'', color = None\<rparr> b))
    = (let ls = splitTextToSize (doc b) s (contentWidth b);
           b1 = checkAndAddPage (lineHeight (length ls)) b
       in (pages (doc b1))[currentPage (doc b1) - 1 := currentPaints b1 @
            [(italicBody (gs (doc b1)), Text ls MARGIN (y b1) None (Some 1.5))]])"
proof -
  let ?b1 = "checkAndAddPage (lineHeight (length (splitTextToSize (doc b) s (contentWidth b)))) b"
  have "validPage ?b1" using assms by (rule validPage_checkAndAddPage)
  then show ?thesis
    by (simp add: addBodyText_def Let_def validPage_def currentPaints_def italicBody_def
        setFont_def setFontSize_def setTextColor_def doc_text_def paint_on_def FONT_BODY_def
        LINE_HEIGHT_MULTIPLIER_def)
qed

text \<open>
  C9. An absent body text renders nothing: \<open>addBodyText\<close> returns the builder as it
  found it (no paint, the cursor unchanged). An empty bullet list (or none at all) is the
  body text "None listed" in italics: after the capacity check for its wrapped lines, the
  current page gains exactly one shape, that text at the margin in the italic body style,
  and the cursor moves down by its height.
\<close>

theorem absent_text_and_empty_list:
  "addBodyText None opts b = b \<and>
   addBulletList None b
     = addBodyText (Some ''None listed'') \<lparr>fontStyle = Some ''italic'', color = None\<rparr> b \<and>
   addBulletList (Some []) b
     = addBodyText (Some ''None listed'') \<lparr>fontStyle = Some ''italic'', color = None\<rparr> b \<and>
   (validPage b \<longrightarrow>
      (let ls = splitTextToSize (doc b) ''None listed'' (contentWidth b);
           b1 = checkAndAddPage (lineHeight (length ls)) b
       in pages (doc (addBulletList (Some []) b))
            = (pages (doc b1))[currentPage (doc b1) - 1 := currentPaints b1 @
                [(italicBody (gs (doc b1)), Text ls MARGIN (y b1) None (Some 1.5))]] \<and>
          y (addBulletList (Some []) b) = y b1 + lineHeight (length ls)))"
proof (intro conjI impI)
  show "addBodyText None opts b = b"
    by (simp add: addBodyText_def)
  show "addBulletList None b
      = addBodyText (Some ''None listed'') \<lparr>fontStyle = Some ''italic'', color = None\<rparr> b"
    by (simp add: addBulletList_def)
  show e: "addBulletList (Some []) b
      = addBodyText (Some ''None listed'') \<lparr>fontStyle = Some ''italic'', color = None\<rparr> b"
    by (simp add: addBulletList_def)
  assume "validPage b"
  then show "let ls = splitTextToSize (doc b) ''None listed'' (contentWidth b);
           b1 = checkAndAddPage (lineHeight (length ls)) b
       in pages (doc (addBulletList (Some []) b))
            = (pages (doc b1))[currentPage (doc b1) - 1 := currentPaints b1 @
                [(italicBody (gs (doc b1)), Text ls MARGIN (y b1) None (Some 1.5))]] \<and>
          y (addBulletList (Some []) b) = y b1 + lineHeight (length ls)"
    unfolding e by (simp add: addBodyText_paints cursor_addBodyText Let_def)
qed

theorem absent_text_and_empty_list_witness:
  "addBodyText None no_options A4 = A4 \<and>
   pages (doc (addBulletList (Some []) A4))
     = [currentPaints A4 @
         [(\<lparr>font_name = ''helvetica'', font_style = ''italic'', font_size = 10,
             text_color = (75, 85, 99), fill_color = (0, 0, 0), draw_color = (0, 0, 0)\<rparr>,
           Text [''None listed''] 15 15 None (Some 1.5))]] \<and>
   length (currentPaints A4) = 2 \<and>
   y (addBulletList (Some []) A4) = 15 + 5.29167"
proof -
  have v: "validPage A4"
    by (simp add: validPage_def A4_def PdfBuilder_new_def addPage_def addPageHeader_def
        new_jsPDF_def setFont_def setFontSize_def setTextColor_def doc_text_def doc_line_def
        paint_on_def)
  have l: "lineHeight (Suc 0) = 5.29167"
    by (simp add: lineHeight_def FONT_BODY_def LINE_HEIGHT_MULTIPLIER_def)
  have c: "checkAndAddPage (529167 / 100000) A4 = A4"
    by (simp add: checkAndAddPage_def A4_fields MARGIN_def FOOTER_HEIGHT_def)
  have d: "pages (doc A4) = [currentPaints A4]" "currentPage (doc A4) = Suc 0"
    "length (currentPaints A4) = 2"
    by (simp_all add: currentPaints_def A4_def PdfBuilder_new_def addPage_def addPageHeader_def
        new_jsPDF_def setFont_def setFontSize_def setTextColor_def doc_text_def doc_line_def
        paint_on_def)
  note t = absent_text_and_empty_list [of no_options A4]
  from t have t1: "addBodyText None no_options A4 = A4"
    by blast
  from t v have "let ls = splitTextToSize (doc A4) ''None listed'' (contentWidth A4);
           b1 = checkAndAddPage (lineHeight (length ls)) A4
       in pages (doc (addBulletList (Some []) A4))
            = (pages (doc b1))[currentPage (doc b1) - 1 := currentPaints b1 @
                [(italicBody (gs (doc b1)), Text ls MARGIN (y b1) None (Some 1.5))]] \<and>
          y (addBulletList (Some []) A4) = y b1 + lineHeight (length ls)"
    by blast
  then have t2: "pages (doc (addBulletList (Some []) A4))
      = [currentPaints A4 @
         [(italicBody (gs (doc A4)), Text [''None listed''] 15 15 None (Some 1.5))]] \<and>
      y (addBulletList (Some []) A4) = 15 + 5.29167"
    by (simp add: Let_def splitTextToSize_def wrapLines_def c d l A4_fields MARGIN_def)
  from t1 t2 d(3) show ?thesis
    by (simp add: italicBody_def)
qed

subsection \<open>Nothing painted is ever erased\<close>

lemma concat_update_append:
  "i < length xs \<Longrightarrow> set (concat (xs[i := xs ! i @ ps])) = set (concat xs) \<union> set ps"
proof (induction xs arbitrary: i)
  case Nil
  then show ?case by simp
next
  case (Cons a xs)
  then show ?case by (cases i) auto
qed

lemma painted_paint_on:
  assumes "0 < currentPage d \<and> currentPage d \<le> length (pages d)"
  shows "set (concat (pages (paint_on s d))) = insert (gs d, s) (set (concat (pages d)))"
proof -
  from assms have "currentPage d - 1 < length (pages d)" by (cases "currentPage d") auto
  then have "set (concat ((pages d)[currentPage d - 1 := pages d ! (currentPage d - 1) @ [(gs d, s)]]))
      = set (concat (pages d)) \<union> set [(gs d, s)]"
    by (rule concat_update_append)
  with assms show ?thesis by (simp add: paint_on_def del: set_concat)
qed

lemma paint_on_invalid:
  "\<not> (0 < currentPage d \<and> currentPage d \<le> length (pages d)) \<Longrightarrow> paint_on s d = d"
  unfolding paint_on_def by (rule if_not_P)

lemma page_paint_on [simp]:
  "currentPage (paint_on s d) = currentPage d" "length (pages (paint_on s d)) = length (pages d)"
  by (simp_all add: paint_on_def)

lemma grows_refl [simp]: "grows b b"
  by (simp add: grows_def)

lemma grows_trans: "grows a b \<Longrightarrow> grows b c \<Longrightarrow> grows a c"
  by (auto simp: grows_def)

lemma grows_y [simp]: "grows b (b\<lparr>y := v\<rparr>)"
  by (simp add: grows_def painted_def validPage_def)

lemma grows_style [simp]:
  "grows b (on_doc (setFont n st) b)" "grows b (on_doc (setFontSize z) b)"
  "grows b (on_doc (setTextColor c) b)" "grows b (on_doc (setFillColor c) b)"
  "grows b (on_doc (setDrawColor c) b)"
  by (simp_all add: grows_def painted_def validPage_def setFont_def setFontSize_def
      setTextColor_def setFillColor_def setDrawColor_def)

lemma grows_paint_on: "grows b (on_doc (paint_on s) b)"
proof (cases "0 < currentPage (doc b) \<and> currentPage (doc b) \<le> length (pages (doc b))")
  case True
  then show ?thesis
    by (simp add: grows_def painted_def validPage_def painted_paint_on del: set_concat) blast
next
  case False
  then have "paint_on s (doc b) = doc b" by (rule paint_on_invalid)
  then show ?thesis by (simp add: grows_def painted_def validPage_def)
qed

lemma grows_draw [simp]:
  "grows b (on_doc (doc_text ls x0 y0 al lhf) b)" "grows b (on_doc (doc_line x1 y1 x2 y2) b)"
  "grows b (on_doc (doc_rect x0 y0 w h st) b)"
  using grows_paint_on [of b]
  by (simp_all add: doc_text_def doc_line_def doc_rect_def on_doc_def)

lemma grows_run: "(\<And>f s. f \<in> set fs \<Longrightarrow> grows s (f s)) \<Longrightarrow> grows b (run fs b)"
proof (induction fs arbitrary: b)
  case Nil
  show ?case by simp
next
  case (Cons f fs)
  have "grows b (f b)" by (rule Cons.prems) simp
  moreover have "grows (f b) (run fs (f b))" by (rule Cons.IH) (simp add: Cons.prems)
  ultimately show ?case by (auto intro: grows_trans)
qed

lemma grows_doc_addPage [simp]: "grows b (on_doc doc_addPage b)"
  by (simp add: grows_def painted_def validPage_def doc_addPage_def)

lemma grows_pageNumber [simp]: "grows b (b\<lparr>pageNumber := n\<rparr>)"
  by (simp add: grows_def painted_def validPage_def)

lemma grows_addPageHeader: "grows b (addPageHeader b)"
  unfolding addPageHeader_def by (rule grows_run) auto

lemma grows_addPage: "grows b (addPage b)"
  unfolding addPage_def
  by (rule grows_run) (auto simp: grows_addPageHeader)

lemma grows_checkAndAddPage [simp]: "grows b (checkAndAddPage h b)"
  by (simp add: checkAndAddPage_def grows_addPage)

lemma grows_addSectionTitle [simp]: "grows b (addSectionTitle s b)"
  unfolding addSectionTitle_def by (rule grows_run) auto

lemma grows_addBodyText [simp]: "grows b (addBodyText t opts b)"
proof (cases t)
  case None
  then show ?thesis by (simp add: addBodyText_def)
next
  case (Some s)
  have "grows b (run fs b)" if "fs = [checkAndAddPage h,
      on_doc (setFont ''helvetica'' st), on_doc (setFontSize FONT_BODY), on_doc (setTextColor c),
      \<lambda>b. on_doc (doc_text ls MARGIN (y b) None (Some LINE_HEIGHT_MULTIPLIER)) b,
      \<lambda>b. b\<lparr>y := y b + h\<rparr>]" for fs h st c ls
    unfolding that by (rule grows_run) auto
  with Some show ?thesis by (simp add: addBodyText_def Let_def)
qed

lemma in_painted_rect:
  "validPage b \<Longrightarrow> (gs (doc b), Rect x0 y0 w h st) \<in> painted (on_doc (doc_rect x0 y0 w h st) b)"
  by (simp add: painted_def validPage_def doc_rect_def painted_paint_on del: set_concat)

lemma validPage_A4: "validPage A4"
  by (simp add: validPage_def A4_def PdfBuilder_new_def addPage_def addPageHeader_def
      new_jsPDF_def setFont_def setFontSize_def setTextColor_def doc_text_def doc_line_def
      paint_on_def)

lemma grows_renderRecommendation [simp]: "grows b (renderRecommendation r b)"
  unfolding renderRecommendation_def by (rule grows_run) auto

lemma grows_styledFirstPass:
  assumes "\<forall>s. grows s (c s)"
  shows "grows b (snd (snd (styledFirstPass title c b)))"
proof -
  have "grows b (run [checkAndAddPage 15, \<lambda>b. b\<lparr>y := y b + 5\<rparr>, addSectionTitle title,
      \<lambda>b. b\<lparr>y := y b + 2\<rparr>, c, \<lambda>b. b\<lparr>y := y b + 5\<rparr>] b)"
    using assms by (intro grows_run) auto
  then show ?thesis by (simp add: styledFirstPass_def Let_def)
qed

lemma addStyledSection_box:
  assumes fp: "styledFirstPass title c b = (startY, contentStartY, b6)"
    and nb: "\<not> spansPageBreak startY (y b6) (pageHeight b6)"
    and v: "validPage b" and c: "\<forall>s. grows s (c s)"
  shows "(gs (doc b6)\<lparr>fill_color := (243, 244, 246)\<rparr>,
      Rect MARGIN startY (contentWidth b6) (y b6 - startY) (Some ''F''))
    \<in> painted (addStyledSection title c b)"
proof -
  let ?b7 = "on_doc (setFillColor (243, 244, 246)) b6"
  let ?b8 = "on_doc (doc_rect MARGIN startY (contentWidth ?b7) (y b6 - startY) (Some ''F'')) ?b7"
  let ?rest = "[\<lambda>b. b\<lparr>y := contentStartY - 7\<rparr>, addSectionTitle title, \<lambda>b. b\<lparr>y := y b + 2\<rparr>, c,
      \<lambda>b. b\<lparr>y := y b6\<rparr>]"
  have e: "addStyledSection title c b = run ?rest ?b8"
    using nb by (simp add: addStyledSection_def fp Let_def)
  have "grows b b6" using grows_styledFirstPass [OF c, of b title] by (simp add: fp)
  with v have "validPage b6" by (simp add: grows_def)
  then have "validPage ?b7" using grows_style(4) [of b6] by (simp add: grows_def)
  then have "(gs (doc ?b7), Rect MARGIN startY (contentWidth ?b7) (y b6 - startY) (Some ''F''))
      \<in> painted ?b8"
    by (rule in_painted_rect)
  moreover have "grows ?b8 (run ?rest ?b8)"
    using c by (intro grows_run) auto
  ultimately have "(gs (doc ?b7), Rect MARGIN startY (contentWidth ?b7) (y b6 - startY) (Some ''F''))
      \<in> painted (run ?rest ?b8)"
    by (auto simp: grows_def)
  then show ?thesis
    unfolding e by (simp add: setFillColor_def)
qed

text \<open>
  A section "Final Recommendation" begun at offset 250 of the first A4 page, with
  one-line texts: the second text of the content does not fit and begins page 2, so the
  first pass starts on page 1 at offset 250 and ends on page 2 at offset 25.29167. The
  offsets are relative to their pages, both below the page height, so the test of
  \<open>addStyledSection\<close> sees no difference and the background box is drawn all the same,
  from offset 250 with the negative height 25.29167 - 250.
\<close>

lemma addStyledSection_box_negative_height:
  "(case styledFirstPass ''Final Recommendation'' (renderRecommendation (exampleResult 1 0))
          (A4\<lparr>y := 250\<rparr>) of
      (startY, contentStartY, b6) \<Rightarrow>
        pageNumber (A4\<lparr>y := 250\<rparr>) = 1 \<and> pageNumber b6 = 2 \<and>
        startY = 250 \<and> y b6 = 25.29167 \<and> \<not> spansPageBreak startY (y b6) (pageHeight b6)) \<and>
   (\<exists>g. (g, Rect 15 250 180 (25.29167 - 250) (Some ''F''))
      \<in> painted (addStyledSection ''Final Recommendation''
            (renderRecommendation (exampleResult 1 0)) (A4\<lparr>y := 250\<rparr>)))"
proof -
  let ?B = "A4\<lparr>y := 250\<rparr>"
  let ?c = "renderRecommendation (exampleResult 1 0)"
  let ?b3 = "addSectionTitle ''Final Recommendation'' (A4\<lparr>y := 255\<rparr>)"
  let ?t1 = "addBodyText (Some ''Top Candidate: Ada'') bold (?b3\<lparr>y := 1327 / 5\<rparr>)"
  let ?t2 = "addBodyText (Some ''Best match'') no_options ?t1"
  let ?b6 = "?t2\<lparr>y := 2529167 / 100000\<rparr>"
  note nums = A4_fields MARGIN_def FOOTER_HEIGHT_def
  have b1: "checkAndAddPage 15 ?B = ?B"
    by (simp add: checkAndAddPage_def nums)
  have b3: "y ?b3 = 1317 / 5" "pageNumber ?b3 = 1"
    by (simp_all add: cursor_addSectionTitle y_checkAndAddPage pageNumber_checkAndAddPage nums)
  have h: "lineHeight (Suc 0) = 529167 / 100000"
    by (simp add: lineHeight_def FONT_BODY_def LINE_HEIGHT_MULTIPLIER_def)
  have t1: "y ?t1 = 27069167 / 100000" "pageNumber ?t1 = 1"
    by (simp_all add: cursor_addBodyText y_checkAndAddPage pageNumber_checkAndAddPage b3 nums
        splitTextToSize_def wrapLines_def h)
  have t2: "y ?t2 = 2029167 / 100000" "pageNumber ?t2 = 2"
    by (simp_all add: cursor_addBodyText y_checkAndAddPage pageNumber_checkAndAddPage b3 nums
        splitTextToSize_def wrapLines_def h)
  have fp: "styledFirstPass ''Final Recommendation'' ?c ?B = (250, 1327 / 5, ?b6)"
    by (simp add: styledFirstPass_def Let_def renderRecommendation_def exampleResult_def
        b1 cursor_addBodyText cursor_addSectionTitle y_checkAndAddPage
        pageNumber_checkAndAddPage nums splitTextToSize_def wrapLines_def h)
  have b6: "y ?b6 = 2529167 / 100000" "pageNumber ?b6 = 2" "pageHeight ?b6 = 297"
    "contentWidth ?b6 = 180"
    by (simp_all add: t2 nums)
  have nb: "\<not> spansPageBreak 250 (y ?b6) (pageHeight ?b6)"
    unfolding b6 by (simp add: spansPageBreak_def)
  have v: "validPage ?B"
    using validPage_A4 by (simp add: validPage_def)
  have c: "\<forall>s::builder. grows s (?c s)"
    by simp
  from addStyledSection_box [OF fp nb v c]
  have "\<exists>g. (g, Rect 15 250 180 (25.29167 - 250) (Some ''F''))
      \<in> painted (addStyledSection ''Final Recommendation'' ?c ?B)"
    unfolding b6 by (simp add: MARGIN_def) blast
  moreover have "pageNumber ?B = 1" by (simp add: nums)
  ultimately show ?thesis
    using b6(1,2) nb unfolding fp by simp
qed

lemma grows_fold: "(\<And>x s. grows s (f x s)) \<Longrightarrow> grows b (fold f xs b)"
proof (induction xs arbitrary: b)
  case Nil
  show ?case by simp
next
  case (Cons a xs)
  have "grows b (f a b)" by (rule Cons.prems)
  moreover have "grows (f a b) (fold f xs (f a b))" by (rule Cons.IH) (rule Cons.prems)
  ultimately show ?case by (auto intro: grows_trans)
qed

lemma grows_fold_pair:
  "(\<And>x q. grows (snd q) (snd (f x q))) \<Longrightarrow> grows (snd q) (snd (fold f xs q))"
proof (induction xs arbitrary: q)
  case Nil
  show ?case by simp
next
  case (Cons a xs)
  have "grows (snd q) (snd (f a q))" by (rule Cons.prems)
  moreover have "grows (snd (f a q)) (snd (fold f xs (f a q)))" by (rule Cons.IH) (rule Cons.prems)
  ultimately show ?case by (auto intro: grows_trans)
qed

lemma grows_headCell: "grows (snd q) (snd (headCell p q))"
  by (cases p; cases q) (simp add: headCell_def)

lemma grows_bodyCell: "grows (snd q) (snd (bodyCell p q))"
  by (cases p; cases q) (simp add: bodyCell_def)

lemma grows_separatorLine: "grows (snd q) (snd (separatorLine sy w q))"
  by (cases q) (simp add: separatorLine_def)

lemma grows_bodyRow: "grows b (bodyRow p b)"
proof -
  obtain i row where p: "p = (i, row)" by (cases p)
  have 1: "grows s (if i mod 2 \<noteq> 0
      then run [on_doc (setFillColor (249, 250, 251)),
                \<lambda>b. on_doc (doc_rect MARGIN (y b) (contentWidth b) rowHeight (Some ''F'')) b] s
      else s)" for s :: "'a builder_scheme"
  proof -
    have "grows s (run [on_doc (setFillColor (249, 250, 251)),
        \<lambda>b. on_doc (doc_rect MARGIN (y b) (contentWidth b) rowHeight (Some ''F'')) b] s)"
      by (rule grows_run) auto
    then show ?thesis by (simp del: run.simps)
  qed
  have 2: "grows s (snd (fold bodyCell (enumerate 0 row) (MARGIN, s)))" for s :: "'a builder_scheme"
    using grows_fold_pair [of bodyCell "(MARGIN, s)" "enumerate 0 row", OF grows_bodyCell] by simp
  show ?thesis
    unfolding p bodyRow_def prod.case
    by (rule grows_run) (use 1 2 in auto)
qed

lemma run_append: "run (fs @ gs') s = run gs' (run fs s)"
  by (induction fs arbitrary: s) simp_all

lemma addSummaryTable_paints:
  assumes v: "validPage b"
  shows "\<exists>g. (g, Rect MARGIN (y (checkAndAddPage (real (length cs + 1) * rowHeight) b))
             (contentWidth b) rowHeight (Some ''F'')) \<in> painted (addSummaryTable cs b)"
    and "\<exists>g. (g, Rect MARGIN (y b) (contentWidth b)
             (y (checkAndAddPage (real (length cs + 1) * rowHeight) b)
                + real (length cs + 1) * rowHeight - y b) None) \<in> painted (addSummaryTable cs b)"
proof -
  let ?H = "real (length cs + 1) * rowHeight"
  let ?b1 = "checkAndAddPage ?H b"
  let ?s1 = "on_doc (setFillColor (243, 244, 246)) (on_doc (setFontSize FONT_BODY)
       (on_doc (setFont ''helvetica'' ''bold'') ?b1))"
  let ?b2 = "on_doc (doc_rect MARGIN (y ?s1) (contentWidth ?s1) rowHeight (Some ''F'')) ?s1"
  let ?b3 = "snd (fold headCell (enumerate 0 tableHead) (MARGIN, ?b2))"
  let ?b4 = "on_doc (setFont ''helvetica'' ''normal'') (?b3\<lparr>y := y ?b3 + rowHeight\<rparr>)"
  let ?b5 = "fold bodyRow (enumerate 0 (map tableRow cs)) ?b4"
  let ?s5 = "on_doc (setDrawColor (209, 213, 219)) ?b5"
  let ?b6 = "on_doc (doc_rect MARGIN (y b) (contentWidth ?s5) (y ?s5 - y b) None) ?s5"
  let ?b7 = "snd (fold (separatorLine (y b)) (butlast colWidths) (MARGIN, ?b6))"
  have e: "addSummaryTable cs b = ?b7\<lparr>y := y ?b7 + 5\<rparr>"
    by (simp add: addSummaryTable_def Let_def)
  have g1: "grows b ?s1"
    by (rule grows_trans [OF grows_checkAndAddPage])
      (rule grows_trans [OF grows_style(1)], rule grows_trans [OF grows_style(2)], rule grows_style(4))
  have g23: "grows ?b2 ?b3"
    using grows_fold_pair [of headCell "(MARGIN, ?b2)" "enumerate 0 tableHead", OF grows_headCell]
    by simp
  have g34: "grows ?b3 ?b4"
    by (rule grows_trans [OF grows_y]) (rule grows_style(1))
  have g45: "grows ?b4 ?b5"
    by (rule grows_fold) (rule grows_bodyRow)
  have g56: "grows ?b5 ?b6"
    by (rule grows_trans [OF grows_style(5)]) (rule grows_draw(3))
  have g67: "grows ?b6 ?b7"
    using grows_fold_pair [of "separatorLine (y b)" "(MARGIN, ?b6)" "butlast colWidths",
        OF grows_separatorLine]
    by simp
  have g7: "grows ?b7 (addSummaryTable cs b)"
    unfolding e by simp
  have g2e: "grows ?b2 (addSummaryTable cs b)"
    using g23 g34 g45 g56 g67 g7 by (blast intro: grows_trans)
  have g6e: "grows ?b6 (addSummaryTable cs b)"
    using g67 g7 by (blast intro: grows_trans)
  have v1: "validPage ?s1" using g1 v by (simp add: grows_def)
  then have "(gs (doc ?s1), Rect MARGIN (y ?s1) (contentWidth ?s1) rowHeight (Some ''F''))
      \<in> painted ?b2"
    by (rule in_painted_rect)
  with g2e have "(gs (doc ?s1), Rect MARGIN (y ?s1) (contentWidth ?s1) rowHeight (Some ''F''))
      \<in> painted (addSummaryTable cs b)"
    by (auto simp: grows_def)
  then show "\<exists>g. (g, Rect MARGIN (y ?b1) (contentWidth b) rowHeight (Some ''F''))
      \<in> painted (addSummaryTable cs b)"
    by auto
  have "validPage ?b2" using grows_draw(3) [of ?s1] v1 by (simp add: grows_def)
  then have "validPage ?s5"
    using g23 g34 g45 grows_style(5) [of ?b5] by (simp add: grows_def)
  then have "(gs (doc ?s5), Rect MARGIN (y b) (contentWidth ?s5) (y ?s5 - y b) None) \<in> painted ?b6"
    by (rule in_painted_rect)
  with g6e have in6: "(gs (doc ?s5), Rect MARGIN (y b) (contentWidth ?s5) (y ?s5 - y b) None)
      \<in> painted (addSummaryTable cs b)"
    by (auto simp: grows_def)
  have y3: "y ?b3 = y (snd (MARGIN, ?b2)) \<and> pageNumber ?b3 = pageNumber (snd (MARGIN, ?b2)) \<and>
      frame (snd (MARGIN, ?b2)) ?b3"
    by (rule fold_pair_keeps) (rule cursor_headCell)+
  have y5: "y ?b5 = y ?b4 + real (length (enumerate 0 (map tableRow cs))) * rowHeight \<and>
      pageNumber ?b5 = pageNumber ?b4 \<and> frame ?b4 ?b5"
    by (rule cursor_fold_bodyRow)
  have ys: "y ?s5 = y ?b1 + ?H"
    using y3 y5 by (simp add: algebra_simps)
  have cw: "contentWidth ?s5 = contentWidth b"
    using y3 y5 by (simp add: frame_def)
  from in6 show "\<exists>g. (g, Rect MARGIN (y b) (contentWidth b) (y ?b1 + ?H - y b) None)
      \<in> painted (addSummaryTable cs b)"
    unfolding ys cw by blast
qed

lemma grows_addHeader [simp]: "grows b (addHeader s b)"
  unfolding addHeader_def by (rule grows_run) auto

lemma grows_addSubheader [simp]: "grows b (addSubheader s b)"
  unfolding addSubheader_def by (rule grows_run) auto

lemma grows_addSeparator [simp]: "grows b (addSeparator b)"
  unfolding addSeparator_def by (rule grows_run) auto

text \<open>
  Where the statements of \<open>generatePdf\<close> before the summary table leave the cursor on the
  first A4 page, when the role line and the date line take one line each.
\<close>

lemma cover_leaves_cursor:
  "y (run (take 6 (generatePdf_statements today r)) A4) = 68.98334 \<and>
   pageNumber (run (take 6 (generatePdf_statements today r)) A4) = 1 \<and>
   pageHeight (run (take 6 (generatePdf_statements today r)) A4) = 297 \<and>
   contentWidth (run (take 6 (generatePdf_statements today r)) A4) = 180 \<and>
   validPage (run (take 6 (generatePdf_statements today r)) A4)"
proof -
  note nums = A4_fields MARGIN_def FOOTER_HEIGHT_def
  have h: "lineHeight (Suc 0) = 529167 / 100000"
    by (simp add: lineHeight_def FONT_BODY_def LINE_HEIGHT_MULTIPLIER_def)
  have "grows A4 (run (take 6 (generatePdf_statements today r)) A4)"
    by (rule grows_run) (auto simp: generatePdf_statements_def)
  then have "validPage (run (take 6 (generatePdf_statements today r)) A4)"
    using validPage_A4 by (simp add: grows_def)
  then show ?thesis
    by (simp add: generatePdf_statements_def cursor_addHeader cursor_addSubheader
        cursor_addSeparator cursor_addBodyText y_checkAndAddPage pageNumber_checkAndAddPage
        splitTextToSize_def wrapLines_def h nums)
qed

text \<open>
  C3. \<open>generatePdf\<close> on a result with 25 candidates, on A4 pages, every text fitting one
  line: the six statements before the summary table leave the cursor at offset 68.98334
  of page 1. The 26 rows of the table need 208, which does not fit, so the capacity check
  begins page 2 and the table is painted there from offset 15 (the header band) to offset
  223. The border rectangle and the separator lines start at \<open>startY\<close>, which was read
  before the capacity check: the border is drawn from offset 68.98334 with height
  223 - 68.98334, not from the table's start offset 15 to its end offset 223.
\<close>

theorem addSummaryTable_border_after_page_break:
  "generatePdf_statements ''2026-01-01'' (exampleResult 25 0) ! 6
     = addSummaryTable (exampleRanked 25) \<and>
   y (run (take 6 (generatePdf_statements ''2026-01-01'' (exampleResult 25 0))) A4) = 68.98334 \<and>
   pageNumber (run (take 6 (generatePdf_statements ''2026-01-01'' (exampleResult 25 0))) A4) = 1 \<and>
   pageNumber (run (take 7 (generatePdf_statements ''2026-01-01'' (exampleResult 25 0))) A4) = 2 \<and>
   y (run (take 7 (generatePdf_statements ''2026-01-01'' (exampleResult 25 0))) A4)
     = 15 + 26 * 8 + 5 \<and>
   (\<exists>g. (g, Rect 15 15 180 8 (Some ''F''))
      \<in> painted (run (take 7 (generatePdf_statements ''2026-01-01'' (exampleResult 25 0))) A4)) \<and>
   (\<exists>g. (g, Rect 15 68.98334 180 (223 - 68.98334) None)
      \<in> painted (run (take 7 (generatePdf_statements ''2026-01-01'' (exampleResult 25 0))) A4))"
proof -
  let ?S = "generatePdf_statements ''2026-01-01'' (exampleResult 25 0)"
  let ?B = "run (take 6 ?S) A4"
  let ?T = "addSummaryTable (exampleRanked 25) ?B"
  note nums = MARGIN_def FOOTER_HEIGHT_def rowHeight_def
  have s6: "?S ! 6 = addSummaryTable (exampleRanked 25)"
    by (simp add: generatePdf_statements_def exampleResult_def)
  have len: "length ?S = 17"
    by (simp add: generatePdf_statements_def)
  have "take 7 ?S = take 6 ?S @ [?S ! 6]"
    using len take_Suc_conv_app_nth [of 6 ?S] by simp
  then have t7: "run (take 7 ?S) A4 = ?T"
    by (simp add: s6 run_append)
  note B = cover_leaves_cursor [of "''2026-01-01''" "exampleResult 25 0"]
  have c: "y (checkAndAddPage (real (length (exampleRanked 25) + 1) * rowHeight) ?B) = 15"
    using B by (simp add: y_checkAndAddPage nums)
  have p: "pageNumber ?T = 2"
    using B by (simp add: cursor_addSummaryTable pageNumber_checkAndAddPage nums)
  have yy: "y ?T = 15 + 26 * 8 + 5"
    using B by (simp add: cursor_addSummaryTable y_checkAndAddPage nums)
  from B have v: "validPage ?B" by blast
  from addSummaryTable_paints(1) [OF v, of "exampleRanked 25"]
  have band: "\<exists>g. (g, Rect 15 15 180 8 (Some ''F'')) \<in> painted ?T"
    unfolding c using B by (simp add: nums)
  from addSummaryTable_paints(2) [OF v, of "exampleRanked 25"]
  have border: "\<exists>g. (g, Rect 15 68.98334 180 (223 - 68.98334) None) \<in> painted ?T"
    unfolding c using B by (simp add: nums)
  from s6 B p yy band border show ?thesis
    unfolding t7 by blast
qed

subsection \<open>What holds of the summary table\<close>

text \<open>
  The vertical separators stand at the margin plus the prefix sums of the column widths
  15, 85, 25 and 25 (the last column has none): at 30, 115, 140 and 165.
\<close>

lemma separators_at_prefix_sums:
  "snd (fold (separatorLine sy) (butlast colWidths) (MARGIN, b))
     = on_doc (doc_line 165 sy 165 (y b)) (on_doc (doc_line 140 sy 140 (y b))
         (on_doc (doc_line 115 sy 115 (y b)) (on_doc (doc_line 30 sy 30 (y b)) b)))"
  by (simp add: separatorLine_def colWidths_def MARGIN_def)

lemma samePage_refl [simp]: "samePage b b"
  by (simp add: samePage_def)

lemma samePage_trans: "samePage a b \<Longrightarrow> samePage b c \<Longrightarrow> samePage a c"
  by (simp add: samePage_def)

lemma samePage_steps [simp]:
  "samePage b (b\<lparr>y := v\<rparr>)"
  "samePage b (on_doc (setFont n st) b)" "samePage b (on_doc (setFontSize z) b)"
  "samePage b (on_doc (setTextColor c) b)" "samePage b (on_doc (setFillColor c) b)"
  "samePage b (on_doc (setDrawColor c) b)"
  "samePage b (on_doc (doc_text ls x0 y0 al lhf) b)" "samePage b (on_doc (doc_line x1 y1 x2 y2) b)"
  "samePage b (on_doc (doc_rect x0 y0 w h st') b)"
  by (simp_all add: samePage_def setFont_def setFontSize_def setTextColor_def setFillColor_def
      setDrawColor_def doc_text_def doc_line_def doc_rect_def)

lemma samePage_run: "(\<And>f s. f \<in> set fs \<Longrightarrow> samePage s (f s)) \<Longrightarrow> samePage b (run fs b)"
proof (induction fs arbitrary: b)
  case Nil
  show ?case by simp
next
  case (Cons f fs)
  have "samePage b (f b)" by (rule Cons.prems) simp
  moreover have "samePage (f b) (run fs (f b))" by (rule Cons.IH) (simp add: Cons.prems)
  ultimately show ?case by (auto intro: samePage_trans)
qed

lemma samePage_fold: "(\<And>x s. samePage s (f x s)) \<Longrightarrow> samePage b (fold f xs b)"
proof (induction xs arbitrary: b)
  case Nil
  show ?case by simp
next
  case (Cons a xs)
  have "samePage b (f a b)" by (rule Cons.prems)
  moreover have "samePage (f a b) (fold f xs (f a b))" by (rule Cons.IH) (rule Cons.prems)
  ultimately show ?case by (auto intro: samePage_trans)
qed

lemma samePage_fold_pair:
  "(\<And>x q. samePage (snd q) (snd (f x q))) \<Longrightarrow> samePage (snd q) (snd (fold f xs q))"
proof (induction xs arbitrary: q)
  case Nil
  show ?case by simp
next
  case (Cons a xs)
  have "samePage (snd q) (snd (f a q))" by (rule Cons.prems)
  moreover have "samePage (snd (f a q)) (snd (fold f xs (f a q)))"
    by (rule Cons.IH) (rule Cons.prems)
  ultimately show ?case by (auto intro: samePage_trans)
qed

lemma samePage_headCell: "samePage (snd q) (snd (headCell p q))"
  by (cases p; cases q) (simp add: headCell_def)

lemma samePage_bodyCell: "samePage (snd q) (snd (bodyCell p q))"
  by (cases p; cases q) (simp add: bodyCell_def)

lemma samePage_separatorLine: "samePage (snd q) (snd (separatorLine sy w q))"
  by (cases q) (simp add: separatorLine_def)

lemma samePage_bodyRow: "samePage b (bodyRow p b)"
proof -
  obtain i row where p: "p = (i, row)" by (cases p)
  have 1: "samePage s (if i mod 2 \<noteq> 0
      then run [on_doc (setFillColor (249, 250, 251)),
                \<lambda>b. on_doc (doc_rect MARGIN (y b) (contentWidth b) rowHeight (Some ''F'')) b] s
      else s)" for s :: "'a builder_scheme"
  proof -
    have "samePage s (run [on_doc (setFillColor (249, 250, 251)),
        \<lambda>b. on_doc (doc_rect MARGIN (y b) (contentWidth b) rowHeight (Some ''F'')) b] s)"
      by (rule samePage_run) auto
    then show ?thesis by (simp del: run.simps)
  qed
  have 2: "samePage s (snd (fold bodyCell (enumerate 0 row) (MARGIN, s)))" for s :: "'a builder_scheme"
    using samePage_fold_pair [of bodyCell "(MARGIN, s)" "enumerate 0 row", OF samePage_bodyCell]
    by simp
  show ?thesis
    unfolding p bodyRow_def prod.case
    by (rule samePage_run) (use 1 2 in auto)
qed

text \<open>
  After its capacity check, to which it passes the height of all its rows, the table
  neither adds a page nor leaves the current one: every row, the border and the separators
  are painted on the page the check settled on.
\<close>

lemma addSummaryTable_one_page:
  "samePage (checkAndAddPage (real (length cs + 1) * rowHeight) b) (addSummaryTable cs b)"
proof -
  let ?b1 = "checkAndAddPage (real (length cs + 1) * rowHeight) b"
  have 1: "samePage s (snd (fold headCell (enumerate 0 tableHead) (MARGIN, s)))"
    for s :: "'a builder_scheme"
    using samePage_fold_pair [of headCell "(MARGIN, s)" "enumerate 0 tableHead", OF samePage_headCell]
    by simp
  have 2: "samePage s (fold bodyRow rows s)" for s :: "'a builder_scheme" and rows
    by (rule samePage_fold) (rule samePage_bodyRow)
  have 3: "samePage s (snd (fold (separatorLine sy) (butlast colWidths) (MARGIN, s)))"
    for s :: "'a builder_scheme" and sy
    using samePage_fold_pair [of "separatorLine sy" "(MARGIN, s)" "butlast colWidths",
        OF samePage_separatorLine]
    by simp
  have "samePage ?b1 (run [on_doc (setFont ''helvetica'' ''bold''),
      on_doc (setFontSize FONT_BODY),
      on_doc (setFillColor (243, 244, 246)),
      \<lambda>b. on_doc (doc_rect MARGIN (y b) (contentWidth b) rowHeight (Some ''F'')) b,
      \<lambda>b. snd (fold headCell (enumerate 0 tableHead) (MARGIN, b)),
      \<lambda>b. b\<lparr>y := y b + rowHeight\<rparr>,
      on_doc (setFont ''helvetica'' ''normal''),
      fold bodyRow (enumerate 0 (map tableRow cs)),
      on_doc (setDrawColor (209, 213, 219)),
      \<lambda>b'. on_doc (doc_rect MARGIN (y b) (contentWidth b') (y b' - y b) None) b',
      \<lambda>b'. snd (fold (separatorLine (y b)) (butlast colWidths) (MARGIN, b')),
      \<lambda>b. b\<lparr>y := y b + 5\<rparr>] ?b1)"
    by (rule samePage_run) (use 1 2 3 in auto)
  then show ?thesis
    by (simp add: addSummaryTable_def Let_def)
qed

declare chunks.simps [simp del]

lemma chunks_short: "length xs \<le> n \<Longrightarrow> chunks n xs = [xs]"
  by (subst chunks.simps) simp

lemma length_chunks:
  "0 < n \<Longrightarrow> 0 < k \<Longrightarrow> length xs = k * n \<Longrightarrow> length (chunks n xs) = k"
proof (induction k arbitrary: xs)
  case 0
  then show ?case by simp
next
  case (Suc k)
  show ?case
  proof (cases "k = 0")
    case True
    with Suc.prems show ?thesis by (simp add: chunks_short)
  next
    case False
    with Suc.prems have "\<not> (n = 0 \<or> length xs \<le> n)" by auto
    then have "chunks n xs = take n xs # chunks n (drop n xs)"
      by (subst chunks.simps) simp
    moreover have "length (chunks n (drop n xs)) = k"
      using Suc.prems False by (intro Suc.IH) simp_all
    ultimately show ?thesis by simp
  qed
qed

lemma wrapEvery_short: "length s \<le> 100 \<Longrightarrow> wrapEvery 100 g s w = [s]"
  by (simp add: wrapEvery_def chunks_short)

lemma wrapEvery_long: "length (wrapEvery 100 g (replicate 4000 c) w) = 40"
  unfolding wrapEvery_def by (rule length_chunks) simp_all

lemma A4w_fields:
  "y A4w = 15" "pageHeight A4w = 297" "pageNumber A4w = 1" "pageWidth A4w = 210"
  "contentWidth A4w = 180" "wrap (doc A4w) = wrapEvery 100"
  by (simp_all add: A4w_def PdfBuilder_new_def MARGIN_def addPage_def addPageHeader_def
      new_jsPDF_def)

lemma validPage_A4w: "validPage A4w"
  by (simp add: validPage_def A4w_def PdfBuilder_new_def addPage_def addPageHeader_def
      new_jsPDF_def setFont_def setFontSize_def setTextColor_def doc_text_def doc_line_def
      paint_on_def)

subsection \<open>The styled section keeps what its content procedure keeps\<close>

lemma frame_steps [simp]:
  "frame b (b\<lparr>y := v\<rparr>)"
  "frame b (on_doc (setFont n st) b)" "frame b (on_doc (setFontSize z) b)"
  "frame b (on_doc (setTextColor c) b)" "frame b (on_doc (setFillColor c) b)"
  "frame b (on_doc (setDrawColor c) b)"
  "frame b (on_doc (doc_text ls x0 y0 al lhf) b)" "frame b (on_doc (doc_line x1 y1 x2 y2) b)"
  "frame b (on_doc (doc_rect x0 y0 w h st') b)"
  by (simp_all add: frame_def)

lemma frame_run: "(\<And>f s. f \<in> set fs \<Longrightarrow> frame s (f s)) \<Longrightarrow> frame b (run fs b)"
proof (induction fs arbitrary: b)
  case Nil
  show ?case by simp
next
  case (Cons f fs)
  have "frame b (f b)" by (rule Cons.prems) simp
  moreover have "frame (f b) (run fs (f b))" by (rule Cons.IH) (simp add: Cons.prems)
  ultimately show ?case by (auto intro: frame_trans)
qed

lemma frame_renderRecommendation: "frame b (renderRecommendation r b)"
  unfolding renderRecommendation_def by (rule frame_run) (auto simp: frame_addBodyText)

lemma frame_renderBiasFlag: "frame b (renderBiasFlag fl b)"
  unfolding renderBiasFlag_def
  by (rule frame_run) (auto simp: frame_addBodyText frame_addBulletList)

lemma frame_renderBiasAnalysis: "frame b (renderBiasAnalysis r b)"
  by (simp add: renderBiasAnalysis_def Let_def frame_addBodyText frame_fold frame_renderBiasFlag)

lemma grows_addBulletItem [simp]: "grows b (addBulletItem s b)"
proof -
  have "grows b (run fs b)" if "fs = [checkAndAddPage h,
      on_doc (setFont ''helvetica'' ''normal''), on_doc (setFontSize FONT_BODY),
      on_doc (setTextColor (75, 85, 99)),
      \<lambda>b. on_doc (doc_text [BULLET] (MARGIN + 2) (y b) None (Some LINE_HEIGHT_MULTIPLIER)) b,
      \<lambda>b. on_doc (doc_text ls (MARGIN + 5) (y b) None (Some LINE_HEIGHT_MULTIPLIER)) b,
      \<lambda>b. b\<lparr>y := y b + h\<rparr>]" for fs h ls
    unfolding that by (rule grows_run) auto
  then show ?thesis by (simp add: addBulletItem_def Let_def)
qed

lemma grows_addBulletList [simp]: "grows b (addBulletList its b)"
  by (auto simp: addBulletList_def intro!: grows_fold split: option.splits)

lemma grows_renderBiasFlag: "grows b (renderBiasFlag fl b)"
  unfolding renderBiasFlag_def by (rule grows_run) auto

lemma grows_renderBiasAnalysis [simp]: "grows b (renderBiasAnalysis r b)"
  by (simp add: renderBiasAnalysis_def Let_def grows_fold grows_renderBiasFlag)

lemma styledFirstPass_run:
  "snd (snd (styledFirstPass title c b))
     = run [checkAndAddPage 15, \<lambda>b. b\<lparr>y := y b + 5\<rparr>, addSectionTitle title,
            \<lambda>b. b\<lparr>y := y b + 2\<rparr>, c, \<lambda>b. b\<lparr>y := y b + 5\<rparr>] b"
  by (simp add: styledFirstPass_def Let_def)

lemma styledFirstPass_parts:
  "fst (styledFirstPass title c b) = y (checkAndAddPage 15 b)"
  "fst (snd (styledFirstPass title c b))
     = y (addSectionTitle title ((checkAndAddPage 15 b)\<lparr>y := y (checkAndAddPage 15 b) + 5\<rparr>)) + 2"
  by (simp_all add: styledFirstPass_def Let_def)

lemma addStyledSection_run:
  "addStyledSection title c b =
     (if spansPageBreak (fst (styledFirstPass title c b))
           (y (snd (snd (styledFirstPass title c b))))
           (pageHeight (snd (snd (styledFirstPass title c b))))
      then run [\<lambda>b'. b'\<lparr>y := fst (snd (styledFirstPass title c b)) - 7\<rparr>, addSectionTitle title,
                \<lambda>b'. b'\<lparr>y := y b' + 2\<rparr>, c,
                \<lambda>b'. b'\<lparr>y := y (snd (snd (styledFirstPass title c b)))\<rparr>]
             (snd (snd (styledFirstPass title c b)))
      else run [on_doc (setFillColor (243, 244, 246)),
                \<lambda>b'. on_doc (doc_rect MARGIN (fst (styledFirstPass title c b)) (contentWidth b')
                        (y (snd (snd (styledFirstPass title c b))) - fst (styledFirstPass title c b))
                        (Some ''F'')) b',
                \<lambda>b'. b'\<lparr>y := fst (snd (styledFirstPass title c b)) - 7\<rparr>, addSectionTitle title,
                \<lambda>b'. b'\<lparr>y := y b' + 2\<rparr>, c,
                \<lambda>b'. b'\<lparr>y := y (snd (snd (styledFirstPass title c b)))\<rparr>]
             (snd (snd (styledFirstPass title c b))))"
  by (cases "styledFirstPass title c b") (simp add: addStyledSection_def Let_def)

lemma frame_addStyledSection:
  assumes c: "\<forall>s. frame s (c s)"
  shows "frame b (addStyledSection title c b)"
proof -
  let ?b6 = "snd (snd (styledFirstPass title c b))"
  have 1: "frame b ?b6"
    unfolding styledFirstPass_run
    using c by (intro frame_run) (auto simp: frame_checkAndAddPage cursor_addSectionTitle)
  have 2: "frame ?b6 (run fs ?b6)"
    if "\<forall>f \<in> set fs. \<forall>s. frame s (f s)" for fs
    using that by (intro frame_run) blast
  have "frame ?b6 (addStyledSection title c b)"
    unfolding addStyledSection_run [of title c b]
    using c by (auto intro!: 2 simp del: run.simps simp: cursor_addSectionTitle)
  with 1 show ?thesis by (rule frame_trans)
qed

lemma grows_addStyledSection:
  assumes c: "\<forall>s. grows s (c s)"
  shows "grows b (addStyledSection title c b)"
proof -
  let ?b6 = "snd (snd (styledFirstPass title c b))"
  have 1: "grows b ?b6"
    using c by (rule grows_styledFirstPass)
  have 2: "grows ?b6 (run fs ?b6)"
    if "\<forall>f \<in> set fs. \<forall>s. grows s (f s)" for fs
    using that by (intro grows_run) blast
  have "grows ?b6 (addStyledSection title c b)"
    unfolding addStyledSection_run [of title c b]
    using c by (auto intro!: 2 simp del: run.simps)
  with 1 show ?thesis by (rule grows_trans)
qed

lemma grows_addSummaryTable: "grows b (addSummaryTable cs b)"
proof -
  have 1: "grows s (snd (fold headCell (enumerate 0 tableHead) (MARGIN, s)))"
    for s :: "'a builder_scheme"
    using grows_fold_pair [of headCell "(MARGIN, s)" "enumerate 0 tableHead", OF grows_headCell]
    by simp
  have 2: "grows s (fold bodyRow rows s)" for s :: "'a builder_scheme" and rows
    by (rule grows_fold) (rule grows_bodyRow)
  have 3: "grows s (snd (fold (separatorLine sy) (butlast colWidths) (MARGIN, s)))"
    for s :: "'a builder_scheme" and sy
    using grows_fold_pair [of "separatorLine sy" "(MARGIN, s)" "butlast colWidths",
        OF grows_separatorLine]
    by simp
  have "grows b (run [checkAndAddPage (real (length (map tableRow cs) + 1) * rowHeight),
      on_doc (setFont ''helvetica'' ''bold''),
      on_doc (setFontSize FONT_BODY),
      on_doc (setFillColor (243, 244, 246)),
      \<lambda>b. on_doc (doc_rect MARGIN (y b) (contentWidth b) rowHeight (Some ''F'')) b,
      \<lambda>b. snd (fold headCell (enumerate 0 tableHead) (MARGIN, b)),
      \<lambda>b. b\<lparr>y := y b + rowHeight\<rparr>,
      on_doc (setFont ''helvetica'' ''normal''),
      fold bodyRow (enumerate 0 (map tableRow cs)),
      on_doc (setDrawColor (209, 213, 219)),
      \<lambda>b'. on_doc (doc_rect MARGIN (y b) (contentWidth b') (y b' - y b) None) b',
      \<lambda>b'. snd (fold (separatorLine (y b)) (butlast colWidths) (MARGIN, b')),
      \<lambda>b. b\<lparr>y := y b + 5\<rparr>] b)"
    by (rule grows_run) (use 1 2 3 in auto)
  then show ?thesis
    by (simp add: addSummaryTable_def Let_def)
qed

lemma frame_keeps_A4w:
  "frame b b' \<Longrightarrow> pageHeight b = 297 \<Longrightarrow> contentWidth b = 180 \<Longrightarrow> wrap (doc b) = wrapEvery 100
   \<Longrightarrow> pageHeight b' = 297 \<and> contentWidth b' = 180 \<and> wrap (doc b') = wrapEvery 100"
  by (simp add: frame_def)

lemma painted_finalizeAndAddFooters: "painted b \<subseteq> painted (finalizeAndAddFooters b)"
proof -
  have e: "pages (doc (finalizeAndAddFooters b))
      = map (\<lambda>(i, p). p @ footerOf b i) (enumerate 1 (pages (doc b)))"
    using footerLoop_pages [of b "length (pages (doc b))" 0]
    by (simp add: finalizeAndAddFooters_def getNumberOfPages_def)
  have "set (concat ps) \<subseteq> set (concat (map (\<lambda>(i, p). p @ f i) (enumerate n ps)))"
    for ps :: "paint list list" and n f
    by (induction ps arbitrary: n) auto
  then show ?thesis
    unfolding painted_def e .
qed

text \<open>
  C2. \<open>generatePdf\<close> on A4 pages, the texts wrapped after every 100 characters, on a result
  with no candidate, no bias flag and a reasoning of 4000 characters. The fifteen statements
  before the section "Final Recommendation" leave the cursor on page 2 at offset 80.09167
  (cover and empty table on page 1; on page 2 the subheading, the separator and the bias
  section). The first pass of the section starts there; its title and its first text fit, the
  reasoning of 40 lines (211.6668) does not and begins page 3, and the pass ends on page 3
  at offset 231.6668. The content has crossed a page break, yet both offsets are relative to
  their pages and below the page height: the test of \<open>addStyledSection\<close> sees no difference,
  and the document returned by \<open>generatePdf\<close> holds the background box, drawn from offset
  80.09167 with height 231.6668 - 80.09167.
\<close>

theorem generatePdf_box_across_page_break:
  "(case styledFirstPass ''Final Recommendation'' (renderRecommendation longResult)
          (run (take 15 (generatePdf_statements ''2026-01-01'' longResult)) A4w) of
      (startY, contentStartY, b6) \<Rightarrow>
        pageNumber (run (take 15 (generatePdf_statements ''2026-01-01'' longResult)) A4w) = 2 \<and>
        pageNumber b6 = 3 \<and>
        startY = 80.09167 \<and> y b6 = 231.6668 \<and> \<not> spansPageBreak startY (y b6) (pageHeight b6)) \<and>
   generatePdf 210 297 (wrapEvery 100) ''2026-01-01'' longResult
     = finalizeAndAddFooters (addStyledSection ''Final Recommendation''
         (renderRecommendation longResult)
         (run (take 15 (generatePdf_statements ''2026-01-01'' longResult)) A4w)) \<and>
   (\<exists>g. (g, Rect 15 80.09167 180 (231.6668 - 80.09167) (Some ''F''))
      \<in> painted (generatePdf 210 297 (wrapEvery 100) ''2026-01-01'' longResult))"
proof -
  define S where "S = generatePdf_statements ''2026-01-01'' longResult"
  define B7 where "B7 = run (take 7 S) A4w"
  define B13 where "B13 = run (take 13 S) A4w"
  note nums = MARGIN_def FOOTER_HEIGHT_def rowHeight_def
  have h: "lineHeight (Suc 0) = 529167 / 100000"
    by (simp add: lineHeight_def FONT_BODY_def LINE_HEIGHT_MULTIPLIER_def)
  have t7: "take 7 S = [addHeader ''Job Applicant Screening Results'',
      \<lambda>b. b\<lparr>y := y b + 5\<rparr>,
      addBodyText (Some ''Role Analyzed: Engineer'') bold,
      addBodyText (Some ''Date Generated: 2026-01-01'') no_options,
      addSeparator, addSubheader ''Candidate Summary'', addSummaryTable []]"
    by (simp add: S_def generatePdf_statements_def longResult_def)
  have f7: "frame A4w B7"
    unfolding B7_def t7
    by (rule frame_run)
      (auto simp: cursor_addHeader cursor_addSubheader cursor_addSeparator frame_addBodyText
        cursor_addSummaryTable)
  have g7: "grows A4w B7"
    unfolding B7_def t7 by (rule grows_run) (auto simp: grows_addSummaryTable)
  have c7: "y B7 = 81.98334 \<and> pageNumber B7 = 1"
    unfolding B7_def t7
    by (simp add: cursor_addHeader cursor_addSubheader cursor_addSeparator cursor_addBodyText
        cursor_addSummaryTable y_checkAndAddPage pageNumber_checkAndAddPage splitTextToSize_def
        wrapEvery_short h A4w_fields nums)
  have t13: "take 13 S = take 7 S @ [addPage, addSubheader ''Detailed Candidate Analysis'',
      \<lambda>b. b\<lparr>y := y b + 5\<rparr>, id, checkAndAddPage 80, addSeparator]"
    by (simp add: S_def generatePdf_statements_def longResult_def)
  have e13: "B13 = run [addPage, addSubheader ''Detailed Candidate Analysis'',
      \<lambda>b. b\<lparr>y := y b + 5\<rparr>, id, checkAndAddPage 80, addSeparator] B7"
    unfolding B13_def B7_def t13 by (rule run_append)
  have f13: "frame B7 B13"
    unfolding e13
    by (rule frame_run)
      (auto simp: frame_addPage frame_checkAndAddPage cursor_addSubheader cursor_addSeparator)
  have g13: "grows B7 B13"
    unfolding e13 by (rule grows_run) (auto simp: grows_addPage)
  from frame_keeps_A4w [OF f7] have p7: "pageHeight B7 = 297 \<and> contentWidth B7 = 180 \<and> wrap (doc B7) = wrapEvery 100"
    by (simp add: A4w_fields)
  have c13: "y B13 = 44.4 \<and> pageNumber B13 = 2"
    unfolding e13 using c7 p7
    by (simp add: cursor_addSubheader cursor_addSeparator y_checkAndAddPage
        pageNumber_checkAndAddPage nums)
  from frame_keeps_A4w [OF f13] p7
  have p13: "pageHeight B13 = 297 \<and> contentWidth B13 = 180 \<and> wrap (doc B13) = wrapEvery 100"
    by simp
  define bias where "bias = (renderBiasAnalysis longResult :: builder \<Rightarrow> builder)"
  have bias: "bias = addBodyText (Some ''No concerning biases detected.'')
                \<lparr>fontStyle = None, color = Some (22, 101, 52)\<rparr>"
    by (rule ext) (simp add: bias_def renderBiasAnalysis_def longResult_def)
  define P where "P = snd (snd (styledFirstPass ''Bias Analysis Report'' bias B13))"
  define B14 where "B14 = run (take 14 S) A4w"
  have t14: "take 14 S = take 13 S @ [addStyledSection ''Bias Analysis Report'' bias]"
    by (simp add: S_def generatePdf_statements_def bias_def)
  have e14: "B14 = addStyledSection ''Bias Analysis Report'' bias B13"
    unfolding B14_def B13_def t14 by (simp add: run_append)
  have fb: "\<forall>s::builder. frame s (bias s)" by (simp add: bias frame_addBodyText)
  have gb: "\<forall>s::builder. grows s (bias s)" by (simp add: bias grows_addBodyText)
  have fP: "frame B13 P"
    unfolding P_def styledFirstPass_run
    using fb by (intro frame_run) (auto simp: frame_checkAndAddPage cursor_addSectionTitle)
  from frame_keeps_A4w [OF fP] p13
  have pP: "pageHeight P = 297 \<and> contentWidth P = 180 \<and> wrap (doc P) = wrapEvery 100"
    by simp
  have cP: "y P = 70.09167 \<and> pageNumber P = 2"
    unfolding P_def styledFirstPass_run bias using c13 p13
    by (simp add: cursor_addSectionTitle cursor_addBodyText y_checkAndAddPage
        pageNumber_checkAndAddPage splitTextToSize_def wrapEvery_short h nums)
  have sP: "fst (styledFirstPass ''Bias Analysis Report'' bias B13) = 44.4
      \<and> fst (snd (styledFirstPass ''Bias Analysis Report'' bias B13)) = 59.8"
    using c13 p13
    by (simp add: styledFirstPass_parts cursor_addSectionTitle y_checkAndAddPage nums)
  have nP: "\<not> spansPageBreak 44.4 70.09167 297"
    by (simp add: spansPageBreak_def)
  have f14: "frame B13 B14"
    unfolding e14 using fb by (rule frame_addStyledSection)
  have g14: "grows B13 B14"
    unfolding e14 using gb by (rule grows_addStyledSection)
  have y14: "y B14 = 70.09167"
    unfolding e14 y_addStyledSection using cP by (simp add: P_def)
  have n14: "pageNumber B14 = 2"
  proof -
    let ?fp = "styledFirstPass ''Bias Analysis Report'' bias B13"
    have P: "snd (snd ?fp) = P" by (simp add: P_def)
    have e: "B14 = run [on_doc (setFillColor (243, 244, 246)),
                \<lambda>b'. on_doc (doc_rect MARGIN 44.4 (contentWidth b') (70.09167 - 44.4) (Some ''F'')) b',
                \<lambda>b'. b'\<lparr>y := 59.8 - 7\<rparr>, addSectionTitle ''Bias Analysis Report'',
                \<lambda>b'. b'\<lparr>y := y b' + 2\<rparr>, bias,
                \<lambda>b'. b'\<lparr>y := 70.09167\<rparr>] P"
      unfolding e14 addStyledSection_run [of _ bias B13] P
      by (simp del: run.simps add: sP [THEN conjunct1] sP [THEN conjunct2] cP [THEN conjunct1]
          pP [THEN conjunct1] spansPageBreak_def)
    show ?thesis
      unfolding e bias using cP pP
      by (simp add: cursor_addSectionTitle cursor_addBodyText y_checkAndAddPage
        pageNumber_checkAndAddPage splitTextToSize_def wrapEvery_short h nums)
  qed
  from frame_keeps_A4w [OF f14] p13
  have p14: "pageHeight B14 = 297 \<and> contentWidth B14 = 180 \<and> wrap (doc B14) = wrapEvery 100"
    by simp
  define B15 where "B15 = run (take 15 S) A4w"
  have t15: "take 15 S = take 14 S @ [\<lambda>b. b\<lparr>y := y b + 10\<rparr>]"
    by (simp add: S_def generatePdf_statements_def)
  have e15: "B15 = B14\<lparr>y := y B14 + 10\<rparr>"
    unfolding B15_def B14_def t15 by (simp add: run_append)
  have c15: "y B15 = 80.09167 \<and> pageNumber B15 = 2"
    and p15: "pageHeight B15 = 297 \<and> contentWidth B15 = 180 \<and> wrap (doc B15) = wrapEvery 100"
    using y14 n14 p14 by (simp_all add: e15)
  have g15: "grows B14 B15" by (simp add: e15 grows_y)
  have v15: "validPage B15"
    using validPage_A4w g7 g13 g14 g15 by (simp add: grows_def)
  define rec where "rec = (renderRecommendation longResult :: builder \<Rightarrow> builder)"
  have rec: "rec = (\<lambda>b. run [addBodyText (Some ''Top Candidate: Ada'') bold,
       addBodyText (Some (replicate 4000 (CHR ''a''))) no_options] b)"
    by (rule ext) (simp add: rec_def renderRecommendation_def longResult_def)
  have gr: "\<forall>s::builder. grows s (rec s)" by (simp add: rec_def grows_renderRecommendation)
  define Q where "Q = snd (snd (styledFirstPass ''Final Recommendation'' rec B15))"
  have fQ: "frame B15 Q"
    unfolding Q_def styledFirstPass_run rec
    by (intro frame_run) (auto simp: frame_checkAndAddPage cursor_addSectionTitle frame_addBodyText
        intro!: frame_trans [OF frame_addBodyText frame_addBodyText])
  from frame_keeps_A4w [OF fQ] p15
  have pQ: "pageHeight Q = 297 \<and> contentWidth Q = 180 \<and> wrap (doc Q) = wrapEvery 100"
    by simp
  have l40: "lineHeight 40 = 211.6668"
    by (simp add: lineHeight_def FONT_BODY_def LINE_HEIGHT_MULTIPLIER_def)
  have cQ: "y Q = 231.6668 \<and> pageNumber Q = 3"
    unfolding Q_def styledFirstPass_run rec using c15 p15
    by (simp add: cursor_addSectionTitle cursor_addBodyText y_checkAndAddPage
        pageNumber_checkAndAddPage splitTextToSize_def wrapEvery_short wrapEvery_long h l40 nums)
  have sQ: "fst (styledFirstPass ''Final Recommendation'' rec B15) = 80.09167"
    using c15 p15 by (simp add: styledFirstPass_parts y_checkAndAddPage nums)
  have nQ: "\<not> spansPageBreak 80.09167 231.6668 297"
    by (simp add: spansPageBreak_def)
  define cY where "cY = fst (snd (styledFirstPass ''Final Recommendation'' rec B15))"
  have fp: "styledFirstPass ''Final Recommendation'' rec B15 = (80.09167, cY, Q)"
    by (simp add: Q_def cY_def prod_eq_iff sQ)
  have nb: "\<not> spansPageBreak 80.09167 (y Q) (pageHeight Q)"
    unfolding cQ [THEN conjunct1] pQ [THEN conjunct1] by (rule nQ)
  from addStyledSection_box [OF fp nb v15 gr]
  have box: "\<exists>g. (g, Rect 15 80.09167 180 (231.6668 - 80.09167) (Some ''F''))
      \<in> painted (addStyledSection ''Final Recommendation'' rec B15)"
    unfolding cQ [THEN conjunct1] pQ [THEN conjunct2, THEN conjunct1]
    by (simp add: MARGIN_def) blast
  have t17: "S = take 15 S @ [addStyledSection ''Final Recommendation'' rec, finalizeAndAddFooters]"
    by (simp add: S_def generatePdf_statements_def rec_def)
  have e17: "generatePdf 210 297 (wrapEvery 100) ''2026-01-01'' longResult
      = finalizeAndAddFooters (addStyledSection ''Final Recommendation'' rec B15)"
    unfolding generatePdf_def A4w_def [symmetric] S_def [symmetric] B15_def
    by (subst t17) (simp add: run_append)
  from box painted_finalizeAndAddFooters
  have out: "\<exists>g. (g, Rect 15 80.09167 180 (231.6668 - 80.09167) (Some ''F''))
      \<in> painted (generatePdf 210 297 (wrapEvery 100) ''2026-01-01'' longResult)"
    unfolding e17 by blast
  have "(case styledFirstPass ''Final Recommendation'' rec B15 of
      (startY, contentStartY, b6) \<Rightarrow>
        pageNumber B15 = 2 \<and> pageNumber b6 = 3 \<and>
        startY = 80.09167 \<and> y b6 = 231.6668 \<and> \<not> spansPageBreak startY (y b6) (pageHeight b6))"
    unfolding fp using c15 cQ nb by simp
  with e17 out show ?thesis
    unfolding B15_def rec_def S_def by blast
qed

lemma cursor_renderBiasFlag_wrapLines:
  assumes "wrap (doc b) = wrapLines" "pageHeight b = 297" "y b + 10.58334 \<le> 272"
  shows "y (renderBiasFlag fl b) = y b + 12.58334"
    and "pageNumber (renderBiasFlag fl b) = pageNumber b"
proof -
  have h: "lineHeight (Suc 0) = 529167 / 100000"
    by (simp add: lineHeight_def FONT_BODY_def LINE_HEIGHT_MULTIPLIER_def)
  show "y (renderBiasFlag fl b) = y b + 12.58334"
    and "pageNumber (renderBiasFlag fl b) = pageNumber b"
    using assms
    by (simp_all add: renderBiasFlag_def addBulletList_def cursor_addBodyText cursor_addBulletItem
        y_checkAndAddPage pageNumber_checkAndAddPage splitTextToSize_def wrapLines_def h
        MARGIN_def FOOTER_HEIGHT_def)
qed

lemma cursor_fold_renderBiasFlag_wrapLines:
  assumes "wrap (doc b) = wrapLines" "pageHeight b = 297" "y b + real k * 12.58334 \<le> 274"
  shows "y (fold renderBiasFlag (replicate k fl) b) = y b + real k * 12.58334 \<and>
     pageNumber (fold renderBiasFlag (replicate k fl) b) = pageNumber b"
  using assms
proof (induction k arbitrary: b)
  case 0
  show ?case by simp
next
  case (Suc k)
  let ?b = "renderBiasFlag fl b"
  define r where "r = real k"
  have r: "0 \<le> r" by (simp add: r_def)
  from Suc.prems(3) have "y b + (r + 1) * 12.58334 \<le> 274"
    by (simp add: r_def add.commute)
  with r have le: "y b + 10.58334 \<le> 272"
    by (simp add: add_divide_distrib)
  note c = cursor_renderBiasFlag_wrapLines [OF Suc.prems(1,2) le, of fl]
  have f: "frame b ?b" by (rule frame_renderBiasFlag)
  then have g: "wrap (doc ?b) = wrapLines" "pageHeight ?b = 297"
    using Suc.prems(1,2) by (simp_all add: frame_def)
  from Suc.prems(3) have "y ?b + real k * 12.58334 \<le> 274"
    by (simp add: c add_divide_distrib)
  from Suc.IH [OF g this] show ?case
    by (simp add: c add_divide_distrib)
qed

lemma frame_keeps:
  "frame b b' \<Longrightarrow> pageHeight b = h \<Longrightarrow> contentWidth b = w \<Longrightarrow> wrap (doc b) = f
   \<Longrightarrow> pageHeight b' = h \<and> contentWidth b' = w \<and> wrap (doc b') = f"
  by (simp add: frame_def)

text \<open>
  The content of a styled section need not leave the offset in the band: the bias analysis
  adds 2 below every flag, outside any capacity check. In \<open>generatePdf\<close> on a result with no
  candidate and 17 bias flags (A4 pages, every text on one line) the bias section is entered
  on page 2 at offset 44.4, its content is invoked at 59.8 and leaves the cursor at
  273.71678, below the band that ends at 272, and the section ends at 278.71678, below the
  band widened by 5.
\<close>

lemma generatePdf_bias_section_below_band:
  "y (run (take 13 (generatePdf_statements ''2026-01-01'' (exampleResult 0 17))) A4) = 44.4 \<and>
   y (contentEntry ''Bias Analysis Report''
        (run (take 13 (generatePdf_statements ''2026-01-01'' (exampleResult 0 17))) A4)) = 59.8 \<and>
   y (renderBiasAnalysis (exampleResult 0 17)
        (contentEntry ''Bias Analysis Report''
          (run (take 13 (generatePdf_statements ''2026-01-01'' (exampleResult 0 17))) A4)))
     = 273.71678 \<and>
   y (run (take 14 (generatePdf_statements ''2026-01-01'' (exampleResult 0 17))) A4) = 278.71678 \<and>
   pageHeight (run (take 14 (generatePdf_statements ''2026-01-01'' (exampleResult 0 17))) A4)
     - MARGIN - FOOTER_HEIGHT + 5 = 277"
proof -
  define S where "S = generatePdf_statements ''2026-01-01'' (exampleResult 0 17)"
  define B7 where "B7 = run (take 7 S) A4"
  define B13 where "B13 = run (take 13 S) A4"
  define B14 where "B14 = run (take 14 S) A4"
  define bias where "bias = (renderBiasAnalysis (exampleResult 0 17) :: builder \<Rightarrow> builder)"
  define E where "E = contentEntry ''Bias Analysis Report'' B13"
  note nums = MARGIN_def FOOTER_HEIGHT_def rowHeight_def
  have h: "lineHeight (Suc 0) = 529167 / 100000"
    by (simp add: lineHeight_def FONT_BODY_def LINE_HEIGHT_MULTIPLIER_def)
  have t7: "take 7 S = [addHeader ''Job Applicant Screening Results'',
      \<lambda>b. b\<lparr>y := y b + 5\<rparr>,
      addBodyText (Some ''Role Analyzed: Engineer'') bold,
      addBodyText (Some ''Date Generated: 2026-01-01'') no_options,
      addSeparator, addSubheader ''Candidate Summary'', addSummaryTable []]"
    by (simp add: S_def generatePdf_statements_def exampleResult_def exampleRanked_def)
  have f7: "frame A4 B7"
    unfolding B7_def t7
    by (rule frame_run)
      (auto simp: cursor_addHeader cursor_addSubheader cursor_addSeparator frame_addBodyText
        cursor_addSummaryTable)
  have c7: "y B7 = 81.98334 \<and> pageNumber B7 = 1"
    unfolding B7_def t7
    by (simp add: cursor_addHeader cursor_addSubheader cursor_addSeparator cursor_addBodyText
        cursor_addSummaryTable y_checkAndAddPage pageNumber_checkAndAddPage splitTextToSize_def
        wrapLines_def h A4_fields nums)
  have t13: "take 13 S = take 7 S @ [addPage, addSubheader ''Detailed Candidate Analysis'',
      \<lambda>b. b\<lparr>y := y b + 5\<rparr>, id, checkAndAddPage 80, addSeparator]"
    by (simp add: S_def generatePdf_statements_def exampleResult_def exampleRanked_def)
  have e13: "B13 = run [addPage, addSubheader ''Detailed Candidate Analysis'',
      \<lambda>b. b\<lparr>y := y b + 5\<rparr>, id, checkAndAddPage 80, addSeparator] B7"
    unfolding B13_def B7_def t13 by (rule run_append)
  have f13: "frame B7 B13"
    unfolding e13
    by (rule frame_run)
      (auto simp: frame_addPage frame_checkAndAddPage cursor_addSubheader cursor_addSeparator)
  from frame_keeps [OF f7]
  have p7: "pageHeight B7 = 297 \<and> contentWidth B7 = 180 \<and> wrap (doc B7) = wrapLines"
    by (simp add: A4_fields)
  have c13: "y B13 = 44.4 \<and> pageNumber B13 = 2"
    unfolding e13 using c7 p7
    by (simp add: cursor_addSubheader cursor_addSeparator y_checkAndAddPage
        pageNumber_checkAndAddPage nums)
  from frame_keeps [OF f13] p7
  have p13: "pageHeight B13 = 297 \<and> contentWidth B13 = 180 \<and> wrap (doc B13) = wrapLines"
    by simp
  have cE: "y E = 59.8"
    unfolding E_def using c13 p13
    by (simp add: contentEntry_def Let_def cursor_addSectionTitle y_checkAndAddPage nums)
  from frame_keeps [OF frame_contentEntry [of B13 "''Bias Analysis Report''"]] p13
  have pE: "pageHeight E = 297 \<and> contentWidth E = 180 \<and> wrap (doc E) = wrapLines"
    by (simp add: E_def)
  have bias: "bias = fold renderBiasFlag
      (replicate 17 \<lparr>flag = ''Age is mentioned'', category = ''Age'', severity = ''Low''\<rparr>)"
    by (rule ext) (simp add: bias_def renderBiasAnalysis_def exampleResult_def)
  have cB: "y (bias E) = 273.71678"
    unfolding bias
    using cursor_fold_renderBiasFlag_wrapLines [of E 17] pE cE by simp
  have t14: "take 14 S = take 13 S @ [addStyledSection ''Bias Analysis Report'' bias]"
    by (simp add: S_def generatePdf_statements_def bias_def)
  have e14: "B14 = addStyledSection ''Bias Analysis Report'' bias B13"
    unfolding B14_def B13_def t14 by (simp add: run_append)
  have c14: "y B14 = 278.71678"
    unfolding e14 y_addStyledSection_contentEntry E_def [symmetric] cB by simp
  have fb: "\<forall>s::builder. frame s (bias s)"
    by (simp add: bias_def frame_renderBiasAnalysis)
  from frame_keeps [OF frame_addStyledSection [OF fb, of B13 "''Bias Analysis Report''"]] p13
  have p14: "pageHeight B14 = 297" by (simp add: e14)
  from c13 cE cB c14 p14 show ?thesis
    unfolding E_def B13_def B14_def bias_def S_def by (simp add: nums)
qed

end
